theory Spec2Isabelle
  imports Complex_Main
begin

section \<open>Data model\<close>

text \<open>
  The simulator (\<^verbatim>\<open>core/grid_simulator.py\<close>) and the controllers
  (\<^verbatim>\<open>core/rl_agent.py\<close>) compute with Python floats. A float that the code computes from
  its own state and from the draws of the random generators is modelled by a real number:
  rounding and overflow are outside the model, and the statements below are about the
  arithmetic the code writes down, carried out exactly. On these, \<^verbatim>\<open>np.clip(x, lo, hi)\<close> is
  \<open>min (max x lo) hi\<close>, and Python's \<^verbatim>\<open>max(0, x)\<close> and \<^verbatim>\<open>min(a, b, c)\<close> are \<open>max\<close> and \<open>min\<close>.

  A float that comes from the caller (a component of the action, a forecast) can be NaN,
  and so can what is computed from it: the curtailed renewable power, the shifted load, the
  grid balance, and the three fields \<^verbatim>\<open>grid_import\<close>, \<^verbatim>\<open>grid_frequency\<close> and \<^verbatim>\<open>grid_voltage\<close>.
  These have the type \<open>pyfloat\<close>. An infinite component of the action needs no value of its
  own: \<^verbatim>\<open>np.clip\<close> takes it to 0 or 1 as it takes every number beyond the bounds.
\<close>

datatype pyfloat = NaN | Num real

text \<open>Arithmetic with one float operand: NaN in, NaN out.\<close>

fun fl_map :: "(real \<Rightarrow> real) \<Rightarrow> pyfloat \<Rightarrow> pyfloat" where
  "fl_map f NaN = NaN"
| "fl_map f (Num x) = Num (f x)"

fun fl_sub :: "pyfloat \<Rightarrow> pyfloat \<Rightarrow> pyfloat" where
  "fl_sub (Num x) (Num y) = Num (x - y)"
| "fl_sub x y = NaN"

text \<open>A comparison with NaN is false.\<close>

fun fl_gt :: "pyfloat \<Rightarrow> real \<Rightarrow> bool" where
  "fl_gt NaN c = False"
| "fl_gt (Num x) c = (x > c)"

text \<open>
  Python's \<^verbatim>\<open>max(0, x)\<close> keeps its first argument unless the second is greater, so it is 0
  when \<open>x\<close> is NaN. \<^verbatim>\<open>np.clip\<close> lets NaN through.
\<close>

fun max0 :: "pyfloat \<Rightarrow> real" where
  "max0 NaN = 0"
| "max0 (Num x) = max 0 x"

text \<open>The number in a float, read only where a comparison has shown that it is one.\<close>

fun num :: "pyfloat \<Rightarrow> real" where
  "num (Num x) = x"
| "num NaN = 0"

record GridState =
  solar_generation :: real
  wind_generation :: real
  load_demand :: real
  battery_soc :: real
  battery_capacity :: real
  battery_charge_rate :: real
  battery_health :: real
  grid_import :: pyfloat
  grid_frequency :: pyfloat
  grid_voltage :: pyfloat
  stability_score :: real
  energy_cost :: real
  cloud_cover :: real
  wind_speed :: real
  temperature :: real
  time_of_day :: real
  day_of_year :: int

text \<open>The field defaults of the dataclass \<^verbatim>\<open>GridState\<close>.\<close>

definition GridState_default :: GridState where
  "GridState_default =
     \<lparr> solar_generation = 0, wind_generation = 0, load_demand = 0,
       battery_soc = 0.5, battery_capacity = 1000, battery_charge_rate = 0,
       battery_health = 1, grid_import = Num 0, grid_frequency = Num 50,
       grid_voltage = Num 1,
       stability_score = 1, energy_cost = 0, cloud_cover = 0, wind_speed = 0,
       temperature = 25, time_of_day = 12, day_of_year = 1 \<rparr>"

definition clip :: "real \<Rightarrow> real \<Rightarrow> real \<Rightarrow> real" where
  "clip x lo hi = min (max x lo) hi"

fun np_clip :: "pyfloat \<Rightarrow> real \<Rightarrow> real \<Rightarrow> pyfloat" where
  "np_clip NaN lo hi = NaN"
| "np_clip (Num x) lo hi = Num (clip x lo hi)"

section \<open>The digital twin\<close>

text \<open>
  \<^verbatim>\<open>MicrogridDigitalTwin\<close> owns a \<^verbatim>\<open>GridState\<close>, the step counter, the list of active
  events, the dictionary of event timers and the dictionary of safety-violation counters.
  The attributes that \<^verbatim>\<open>__init__\<close> sets and nothing assigns afterwards are constants here.
\<close>

record violations =
  frequency_violations :: nat
  voltage_violations :: nat
  soc_violations :: nat
  total_violations :: nat

record MicrogridDigitalTwin =
  state :: GridState
  time_step :: int
  active_events :: "string list"
  event_timers :: "string \<rightharpoonup> int"
  safety_violations :: violations

definition dt :: real where "dt = 0.1"
definition solar_capacity :: real where "solar_capacity = 500"
definition wind_capacity :: real where "wind_capacity = 300"
definition battery_max_charge_rate :: real where "battery_max_charge_rate = 200"
definition battery_efficiency :: real where "battery_efficiency = 0.95"
definition grid_import_cost :: real where "grid_import_cost = 7"
definition grid_export_price :: real where "grid_export_price = 4"
definition battery_degradation_cost :: real where "battery_degradation_cost = 0.5"
definition frequency_nominal :: real where "frequency_nominal = 50"
definition voltage_nominal :: real where "voltage_nominal = 1"

text \<open>The entries of the dictionary \<^verbatim>\<open>reward_weights\<close>.\<close>

definition w_stability :: real where "w_stability = 100"
definition w_renewable :: real where "w_renewable = 20"
definition w_battery_health :: real where "w_battery_health = 10"
definition w_soc_penalty :: real where "w_soc_penalty = - 50"
definition w_instability_penalty :: real where "w_instability_penalty = - 100"

text \<open>
  Exceptions are values. \<^verbatim>\<open>IndexError\<close>: \<^verbatim>\<open>step\<close> reads \<^verbatim>\<open>action[0]\<close> to \<^verbatim>\<open>action[4]\<close>.
  \<^verbatim>\<open>ValueError\<close> and \<^verbatim>\<open>KeyError\<close>: \<^verbatim>\<open>_process_events\<close> calls \<^verbatim>\<open>list.remove\<close> and \<^verbatim>\<open>del\<close> on a
  dictionary entry.
\<close>

datatype error = IndexError | ValueError | KeyError

text \<open>
  The draws from the process-wide random generators are arguments: the four values that
  \<^verbatim>\<open>np.random.normal\<close> returns during one \<^verbatim>\<open>step\<close> (in the order of the calls), and the
  values that \<^verbatim>\<open>random.randint\<close>, \<^verbatim>\<open>random.uniform\<close> and \<^verbatim>\<open>np.random.normal\<close> return during
  \<^verbatim>\<open>_initialize_state\<close>.
\<close>

record noise =
  cloud_noise :: real
  wind_noise :: real
  temp_noise :: real
  load_noise :: real

record init_draws =
  draw_day :: int
  draw_cloud :: real
  draw_wind :: real
  draw_temp :: real
  draw_load_noise :: real
  draw_soc :: real

text \<open>Python's \<^verbatim>\<open>x % m\<close> on floats, for a positive \<open>m\<close>.\<close>

definition fmod :: "real \<Rightarrow> real \<Rightarrow> real" where
  "fmod x m = x - m * of_int \<lfloor>x / m\<rfloor>"

definition update_weather :: "GridState \<Rightarrow> real \<Rightarrow> real \<Rightarrow> real \<Rightarrow> GridState" where
  "update_weather s zc zw zt =
     (let s = s\<lparr>cloud_cover := clip (cloud_cover s + zc - 0.01) 0 1\<rparr>;
          s = s\<lparr>wind_speed := clip (wind_speed s + zw) 0 25\<rparr>;
          hour_angle = (time_of_day s - 14) * pi / 12;
          daily_temp = 27 + 8 * cos hour_angle
      in s\<lparr>temperature := daily_temp + zt\<rparr>)"

definition update_solar_generation :: "GridState \<Rightarrow> GridState" where
  "update_solar_generation s =
     (let hour_angle = (time_of_day s - 12) * pi / 12
      in if 6 \<le> time_of_day s \<and> time_of_day s \<le> 18 then
           (let base_irradiance = cos hour_angle;
                base_irradiance = max 0 base_irradiance;
                cloud_factor = 1 - 0.8 * cloud_cover s;
                seasonal_factor = 1 + 0.2 * sin (2 * pi * of_int (day_of_year s) / 365);
                temp_factor = 1 - 0.004 * max 0 (temperature s - 25)
            in s\<lparr>solar_generation :=
                   solar_capacity * base_irradiance * cloud_factor * seasonal_factor * temp_factor\<rparr>)
         else s\<lparr>solar_generation := 0\<rparr>)"

definition update_wind_generation :: "GridState \<Rightarrow> GridState" where
  "update_wind_generation s =
     (let v = wind_speed s;
          power = (if v < 3 then 0
                   else if v < 12 then (v - 3) / 9
                   else if v < 25 then 1
                   else 0)
      in s\<lparr>wind_generation := wind_capacity * power\<rparr>)"

definition update_load_demand :: "GridState \<Rightarrow> real \<Rightarrow> GridState" where
  "update_load_demand s zl =
     (let hour = time_of_day s;
          morning_peak = 0.3 * exp (- ((hour - 8)\<^sup>2) / 2);
          evening_peak = 0.5 * exp (- ((hour - 20)\<^sup>2) / 4);
          base_load = 0.4;
          day_type_factor = (if day_of_year s mod 7 \<in> {0, 6} then 0.9 else 1);
          random_factor = 1 + zl;
          load_factor = (base_load + morning_peak + evening_peak) * day_type_factor * random_factor
      in s\<lparr>load_demand := 800 * clip load_factor 0.3 1\<rparr>)"

definition update_grid_dynamics :: "GridState \<Rightarrow> pyfloat \<Rightarrow> GridState" where
  "update_grid_dynamics s power_imbalance =
     (let frequency_deviation = fl_map (\<lambda>p. - p / 1000) power_imbalance;
          s = s\<lparr>grid_frequency :=
                  np_clip (fl_map (\<lambda>d. frequency_nominal + d) frequency_deviation) 49 51\<rparr>;
          voltage_deviation = fl_map (\<lambda>p. - \<bar>p\<bar> / 2000) power_imbalance
      in s\<lparr>grid_voltage :=
             np_clip (fl_map (\<lambda>d. voltage_nominal + d) voltage_deviation) 0.9 1.1\<rparr>)"

text \<open>One counter and the total go up together.\<close>

definition count_frequency :: "violations \<Rightarrow> violations" where
  "count_frequency v = v\<lparr>frequency_violations := frequency_violations v + 1,
                          total_violations := total_violations v + 1\<rparr>"

definition count_voltage :: "violations \<Rightarrow> violations" where
  "count_voltage v = v\<lparr>voltage_violations := voltage_violations v + 1,
                        total_violations := total_violations v + 1\<rparr>"

definition count_soc :: "violations \<Rightarrow> violations" where
  "count_soc v = v\<lparr>soc_violations := soc_violations v + 1,
                    total_violations := total_violations v + 1\<rparr>"

definition balance_ratio :: "GridState \<Rightarrow> real" where
  "balance_ratio s =
     (let total_generation = solar_generation s + wind_generation s
                             + \<bar>battery_charge_rate s\<bar> + max0 (grid_import s)
      in min (total_generation / max (load_demand s) 1) 1)"

definition update_stability_score :: "MicrogridDigitalTwin \<Rightarrow> MicrogridDigitalTwin" where
  "update_stability_score t =
     (let s = state t;
          v = safety_violations t;
          freq_deviation = fl_map (\<lambda>f. \<bar>f - 50\<bar>) (grid_frequency s);
          freq_score = max0 (fl_map (\<lambda>d. 1 - d / 1) freq_deviation);
          v = (if fl_gt freq_deviation 0.5 then count_frequency v else v);
          volt_deviation = fl_map (\<lambda>u. \<bar>u - 1\<bar>) (grid_voltage s);
          volt_score = max0 (fl_map (\<lambda>d. 1 - d / 0.1) volt_deviation);
          v = (if fl_gt volt_deviation 0.05 then count_voltage v else v);
          battery_score = battery_health s;
          v = (if battery_soc s < 0.1 \<or> battery_soc s > 0.95 then count_soc v else v)
      in t\<lparr>state := s\<lparr>stability_score :=
                          0.3 * freq_score + 0.3 * volt_score
                          + 0.2 * battery_score + 0.2 * balance_ratio s\<rparr>,
           safety_violations := v\<rparr>)"

definition calculate_energy_cost :: "GridState \<Rightarrow> GridState" where
  "calculate_energy_cost s =
     (let import_cost = max0 (grid_import s) * grid_import_cost * dt;
          export_revenue = max0 (fl_map uminus (grid_import s)) * grid_export_price * dt;
          battery_cost = \<bar>battery_charge_rate s\<bar> * battery_degradation_cost * dt
      in s\<lparr>energy_cost := import_cost - export_revenue + battery_cost\<rparr>)"

definition calculate_reward :: "GridState \<Rightarrow> real" where
  "calculate_reward s =
     (let stability_reward = w_stability * stability_score s;
          cost_penalty = - energy_cost s;
          renewable_generation = solar_generation s + wind_generation s;
          renewable_ratio = min (renewable_generation / max (load_demand s) 1) 1;
          renewable_bonus = w_renewable * renewable_ratio;
          battery_bonus = w_battery_health * battery_health s;
          soc_penalty = (if battery_soc s < 0.15 \<or> battery_soc s > 0.95 then w_soc_penalty else 0);
          instability_penalty = (if stability_score s < 0.7 then w_instability_penalty else 0)
      in stability_reward + cost_penalty + renewable_bonus + battery_bonus
         + soc_penalty + instability_penalty)"

definition check_termination :: "MicrogridDigitalTwin \<Rightarrow> bool" where
  "check_termination t =
     (if stability_score (state t) < 0.5 then True
      else if battery_health (state t) < 0.5 then True
      else if fl_gt (fl_map (\<lambda>f. \<bar>f - 50\<bar>) (grid_frequency (state t))) 2 then True
      else if time_step t > 1000 then True
      else False)"

text \<open>
  \<^verbatim>\<open>get_state_vector\<close>: an omitted forecast argument is \<open>None\<close>; a forecast that is given is
  a float of the caller. The conversion of the result to 32-bit floats is not modelled.
\<close>

definition get_state_vector ::
  "MicrogridDigitalTwin \<Rightarrow> pyfloat option \<Rightarrow> pyfloat option \<Rightarrow> pyfloat option
     \<Rightarrow> pyfloat list" where
  "get_state_vector t forecast_solar forecast_wind forecast_load =
     (let s = state t;
          current_state =
            [ Num (solar_generation s / solar_capacity),
              Num (wind_generation s / wind_capacity),
              Num (load_demand s / 1000),
              Num (battery_soc s),
              Num (battery_health s),
              fl_map (\<lambda>g. g / 1000) (grid_import s),
              fl_map (\<lambda>f. (f - 50) / 2) (grid_frequency s),
              fl_map (\<lambda>u. u - 1) (grid_voltage s),
              Num (cloud_cover s),
              Num (wind_speed s / 25) ];
          forecast_state =
            (case (forecast_solar, forecast_wind, forecast_load) of
               (Some fs, Some fw, Some fl) \<Rightarrow>
                 [ fl_map (\<lambda>x. x / solar_capacity) fs,
                   fl_map (\<lambda>x. x / wind_capacity) fw,
                   fl_map (\<lambda>x. x / 1000) fl ]
             | _ \<Rightarrow>
                 [ Num (solar_generation s / solar_capacity),
                   Num (wind_generation s / wind_capacity),
                   Num (load_demand s / 1000) ])
      in current_state @ forecast_state)"

subsection \<open>Events\<close>

definition inject_event :: "MicrogridDigitalTwin \<Rightarrow> string \<Rightarrow> MicrogridDigitalTwin" where
  "inject_event t event_type =
     (if event_type = ''cloud_cover'' then
        t\<lparr>state := (state t)\<lparr>cloud_cover := 0.9\<rparr>,
          active_events := active_events t @ [''cloud_cover''],
          event_timers := (event_timers t)(''cloud_cover'' \<mapsto> 10)\<rparr>
      else if event_type = ''wind_drop'' then
        t\<lparr>state := (state t)\<lparr>wind_speed := 1\<rparr>,
          active_events := active_events t @ [''wind_drop''],
          event_timers := (event_timers t)(''wind_drop'' \<mapsto> 15)\<rparr>
      else if event_type = ''peak_demand'' then
        t\<lparr>state := (state t)\<lparr>load_demand := load_demand (state t) * 1.5\<rparr>,
          active_events := active_events t @ [''peak_demand''],
          event_timers := (event_timers t)(''peak_demand'' \<mapsto> 20)\<rparr>
      else if event_type = ''battery_degradation'' then
        t\<lparr>state := (state t)\<lparr>battery_health := battery_health (state t) * 0.8\<rparr>,
          active_events := active_events t @ [''battery_degradation''],
          event_timers := (event_timers t)(''battery_degradation'' \<mapsto> 5)\<rparr>
      else t)"

text \<open>
  The first loop of \<^verbatim>\<open>_process_events\<close> walks the list of active events, one visit per
  entry: an entry whose kind has a timer decrements that timer, and is appended to
  \<^verbatim>\<open>expired_events\<close> when the timer is then at most 0.
\<close>

fun tick_timers ::
  "string list \<Rightarrow> (string \<rightharpoonup> int) \<Rightarrow> string list \<Rightarrow> (string \<rightharpoonup> int) \<times> string list" where
  "tick_timers [] timers expired = (timers, expired)"
| "tick_timers (event # rest) timers expired =
     (case timers event of
        None \<Rightarrow> tick_timers rest timers expired
      | Some n \<Rightarrow>
          tick_timers rest (timers(event \<mapsto> n - 1))
            (if n - 1 \<le> 0 then expired @ [event] else expired))"

text \<open>
  The second loop: \<^verbatim>\<open>list.remove\<close> deletes the first entry equal to the event and raises
  \<^verbatim>\<open>ValueError\<close> when there is none; \<^verbatim>\<open>del\<close> raises \<^verbatim>\<open>KeyError\<close> when the timer is already
  gone. Only the two weather events put a field back.
\<close>

fun expire_events :: "string list \<Rightarrow> MicrogridDigitalTwin \<Rightarrow> error + MicrogridDigitalTwin" where
  "expire_events [] t = Inr t"
| "expire_events (event # rest) t =
     (if event \<notin> set (active_events t) then Inl ValueError
      else if event_timers t event = None then Inl KeyError
      else
        (let t = t\<lparr>active_events := remove1 event (active_events t),
                   event_timers := (event_timers t)(event := None)\<rparr>;
             t = (if event = ''cloud_cover'' then t\<lparr>state := (state t)\<lparr>cloud_cover := 0.2\<rparr>\<rparr>
                  else if event = ''wind_drop'' then t\<lparr>state := (state t)\<lparr>wind_speed := 10\<rparr>\<rparr>
                  else t)
         in expire_events rest t))"

definition process_events :: "MicrogridDigitalTwin \<Rightarrow> error + MicrogridDigitalTwin" where
  "process_events t =
     (case tick_timers (active_events t) (event_timers t) [] of
        (timers, expired_events) \<Rightarrow> expire_events expired_events (t\<lparr>event_timers := timers\<rparr>))"

subsection \<open>One step\<close>

text \<open>
  \<^verbatim>\<open>step\<close> in three parts. The action is parsed before anything is changed, so a vector
  with fewer than five components leaves the twin as it was. \<open>advance\<close> is the part of
  \<^verbatim>\<open>step\<close> up to the call of \<^verbatim>\<open>_process_events\<close> (clock, weather, generation, load);
  \<open>dispatch\<close> is the part after it: \<open>settle\<close> (curtailment, load shifting, the battery,
  the grid balance, frequency and voltage), then the scores, the reward and the
  termination test. An exception of \<^verbatim>\<open>_process_events\<close> leaves \<^verbatim>\<open>step\<close> at that point; the
  model returns the error and no twin.
\<close>

definition advance :: "MicrogridDigitalTwin \<Rightarrow> noise \<Rightarrow> MicrogridDigitalTwin" where
  "advance t z =
     (let t = t\<lparr>time_step := time_step t + 1\<rparr>;
          s = state t;
          s = s\<lparr>time_of_day := fmod (time_of_day s + dt) 24\<rparr>;
          s = update_weather s (cloud_noise z) (wind_noise z) (temp_noise z);
          s = update_solar_generation s;
          s = update_wind_generation s;
          s = update_load_demand s (load_noise z)
      in t\<lparr>state := s\<rparr>)"

text \<open>
  The battery branch of \<^verbatim>\<open>step\<close>. Inside a branch the command has passed the comparison with
  0.5, so it is a number; the surplus and the deficit go through \<^verbatim>\<open>max(0, \<dots>)\<close>, so they are
  numbers even when the curtailed renewable power or the shifted load is NaN.
\<close>

definition battery_power_of ::
  "GridState \<Rightarrow> pyfloat \<Rightarrow> pyfloat \<Rightarrow> pyfloat \<Rightarrow> pyfloat \<Rightarrow> real" where
  "battery_power_of s battery_charge_cmd battery_discharge_cmd curtailed_renewable shifted_load =
     (if fl_gt battery_charge_cmd 0.5 \<and> battery_soc s < 0.95 then
        (let excess_renewable = max0 (fl_sub curtailed_renewable shifted_load);
             charge_power = min excess_renewable
                              (min (num battery_charge_cmd * battery_max_charge_rate)
                                   ((0.95 - battery_soc s) * battery_capacity s / dt))
         in - charge_power)
      else if fl_gt battery_discharge_cmd 0.5 \<and> battery_soc s > 0.1 then
        (let deficit = max0 (fl_sub shifted_load curtailed_renewable);
             discharge_power = min deficit
                                 (min (num battery_discharge_cmd * battery_max_charge_rate)
                                      ((battery_soc s - 0.1) * battery_capacity s / dt))
         in discharge_power)
      else 0)"

definition settle :: "MicrogridDigitalTwin \<Rightarrow> pyfloat list \<Rightarrow> MicrogridDigitalTwin" where
  "settle t action =
     (let battery_charge_cmd = np_clip (action ! 0) 0 1;
          battery_discharge_cmd = np_clip (action ! 1) 0 1;
          load_shift_cmd = np_clip (action ! 2) 0 1;
          grid_import_cmd = np_clip (action ! 3) 0 1;
          curtailment_cmd = np_clip (action ! 4) 0 1;
          s = state t;
          available_renewable = solar_generation s + wind_generation s;
          curtailed_renewable = fl_map (\<lambda>c. available_renewable * (1 - c * 0.5)) curtailment_cmd;
          net_load = load_demand s;
          shifted_load = fl_map (\<lambda>c. net_load * (1 - c * 0.2)) load_shift_cmd;
          battery_power = battery_power_of s battery_charge_cmd battery_discharge_cmd
                            curtailed_renewable shifted_load;
          energy_change = battery_power * dt;
          energy_change = (if battery_power < 0 then energy_change * battery_efficiency
                           else energy_change / battery_efficiency);
          s = s\<lparr>battery_soc := clip (battery_soc s - energy_change / battery_capacity s) 0 1\<rparr>;
          s = s\<lparr>battery_charge_rate := battery_power\<rparr>;
          s = s\<lparr>battery_health := battery_health s * 0.9999\<rparr>;
          grid_balance = fl_sub (fl_sub shifted_load curtailed_renewable) (Num battery_power);
          s = s\<lparr>grid_import := (if fl_gt grid_import_cmd 0.5 then grid_balance
                                 else Num (max0 grid_balance))\<rparr>;
          s = update_grid_dynamics s grid_balance
      in t\<lparr>state := s\<rparr>)"

definition dispatch ::
  "MicrogridDigitalTwin \<Rightarrow> pyfloat list
     \<Rightarrow> MicrogridDigitalTwin \<times> pyfloat list \<times> real \<times> bool" where
  "dispatch t action =
     (let t = settle t action;
          t = update_stability_score t;
          t = t\<lparr>state := calculate_energy_cost (state t)\<rparr>;
          reward = calculate_reward (state t);
          done = check_termination t;
          next_state = get_state_vector t None None None
      in (t, next_state, reward, done))"

definition step ::
  "MicrogridDigitalTwin \<Rightarrow> pyfloat list \<Rightarrow> noise
     \<Rightarrow> error + (MicrogridDigitalTwin \<times> pyfloat list \<times> real \<times> bool)" where
  "step t action z =
     (if length action < 5 then Inl IndexError
      else case process_events (advance t z) of
             Inl e \<Rightarrow> Inl e
           | Inr t' \<Rightarrow> Inr (dispatch t' action))"

subsection \<open>Construction and reset\<close>

definition initialize_state :: "MicrogridDigitalTwin \<Rightarrow> init_draws \<Rightarrow> MicrogridDigitalTwin" where
  "initialize_state t d =
     (let s = state t;
          s = s\<lparr>time_of_day := 12\<rparr>;
          s = s\<lparr>day_of_year := draw_day d\<rparr>;
          s = s\<lparr>cloud_cover := draw_cloud d\<rparr>;
          s = s\<lparr>wind_speed := draw_wind d\<rparr>;
          s = s\<lparr>temperature := draw_temp d\<rparr>;
          s = update_solar_generation s;
          s = update_wind_generation s;
          s = update_load_demand s (draw_load_noise d);
          s = s\<lparr>battery_soc := draw_soc d\<rparr>;
          s = s\<lparr>battery_health := 1\<rparr>;
          s = s\<lparr>grid_frequency := Num 50\<rparr>;
          s = s\<lparr>grid_voltage := Num 1\<rparr>;
          t = update_stability_score (t\<lparr>state := s\<rparr>)
      in t\<lparr>state := calculate_energy_cost (state t)\<rparr>)"

definition construct :: "init_draws \<Rightarrow> MicrogridDigitalTwin" where
  "construct d =
     initialize_state
       \<lparr> state = GridState_default, time_step = 0, active_events = [],
         event_timers = Map.empty,
         safety_violations = \<lparr> frequency_violations = 0, voltage_violations = 0,
                               soc_violations = 0, total_violations = 0 \<rparr> \<rparr> d"

definition reset ::
  "MicrogridDigitalTwin \<Rightarrow> init_draws \<Rightarrow> MicrogridDigitalTwin \<times> pyfloat list" where
  "reset t d =
     (let t = t\<lparr>time_step := 0\<rparr>;
          t = t\<lparr>active_events := []\<rparr>;
          t = t\<lparr>event_timers := Map.empty\<rparr>;
          t = initialize_state t d
      in (t, get_state_vector t None None None))"

subsection \<open>Sequences of calls\<close>

text \<open>
  What a caller does with a twin: \<^verbatim>\<open>step\<close> with an action (and the draws of that step),
  \<^verbatim>\<open>inject_event\<close>, \<^verbatim>\<open>reset\<close> (with the draws of the new initial state). A sequence of
  calls stops at the first exception.
\<close>

datatype call = Step "pyfloat list" noise | InjectEvent string | Reset init_draws

fun exec :: "MicrogridDigitalTwin \<Rightarrow> call \<Rightarrow> error + MicrogridDigitalTwin" where
  "exec t (Step action z) = (case step t action z of Inl e \<Rightarrow> Inl e | Inr r \<Rightarrow> Inr (fst r))"
| "exec t (InjectEvent event_type) = Inr (inject_event t event_type)"
| "exec t (Reset d) = Inr (fst (reset t d))"

fun run :: "MicrogridDigitalTwin \<Rightarrow> call list \<Rightarrow> error + MicrogridDigitalTwin" where
  "run t [] = Inr t"
| "run t (c # cs) = (case exec t c of Inl e \<Rightarrow> Inl e | Inr t' \<Rightarrow> run t' cs)"

text \<open>
  The number of \<^verbatim>\<open>step\<close> calls in a sequence since the last \<^verbatim>\<open>reset\<close> (or since the start, when
  there is none), counted on from \<open>n\<close>.
\<close>

fun steps_since_reset :: "int \<Rightarrow> call list \<Rightarrow> int" where
  "steps_since_reset n [] = n"
| "steps_since_reset n (Step action z # cs) = steps_since_reset (n + 1) cs"
| "steps_since_reset n (InjectEvent event_type # cs) = steps_since_reset n cs"
| "steps_since_reset n (Reset d # cs) = steps_since_reset 0 cs"

fun has_reset :: "call list \<Rightarrow> bool" where
  "has_reset [] = False"
| "has_reset (Reset d # cs) = True"
| "has_reset (c # cs) = has_reset cs"

text \<open>The \<^verbatim>\<open>done\<close> flags that an episode of successive \<^verbatim>\<open>step\<close> calls returns.\<close>

fun episode ::
  "MicrogridDigitalTwin \<Rightarrow> (pyfloat list \<times> noise) list \<Rightarrow> error + bool list" where
  "episode t [] = Inr []"
| "episode t (az # rest) =
     (case step t (fst az) (snd az) of
        Inl e \<Rightarrow> Inl e
      | Inr r \<Rightarrow>
          (case episode (fst r) rest of
             Inl e \<Rightarrow> Inl e
           | Inr flags \<Rightarrow> Inr (snd (snd (snd r)) # flags)))"

subsection \<open>The battery dispatch as the specification words it\<close>

text \<open>
  \<open>s\<close> is the state before the step and \<open>s'\<close> the state after it: the state of charge and
  the capacity are read before the battery update, generation and load are the values
  the step has just recomputed. The action is a vector of numbers.
\<close>

definition spec_curtailed_renewable :: "GridState \<Rightarrow> real list \<Rightarrow> real" where
  "spec_curtailed_renewable s' action =
     (solar_generation s' + wind_generation s') * (1 - 0.5 * clip (action ! 4) 0 1)"

definition spec_shifted_load :: "GridState \<Rightarrow> real list \<Rightarrow> real" where
  "spec_shifted_load s' action = load_demand s' * (1 - 0.2 * clip (action ! 2) 0 1)"

definition spec_battery_power :: "GridState \<Rightarrow> GridState \<Rightarrow> real list \<Rightarrow> real" where
  "spec_battery_power s s' action =
     (let charge = clip (action ! 0) 0 1;
          discharge = clip (action ! 1) 0 1;
          surplus = max 0 (spec_curtailed_renewable s' action - spec_shifted_load s' action);
          deficit = max 0 (spec_shifted_load s' action - spec_curtailed_renewable s' action)
      in if charge > 0.5 \<and> battery_soc s < 0.95 then
           - min surplus (min (charge * 200) ((0.95 - battery_soc s) * battery_capacity s / 0.1))
         else if discharge > 0.5 \<and> battery_soc s > 0.10 then
           min deficit (min (discharge * 200) ((battery_soc s - 0.10) * battery_capacity s / 0.1))
         else 0)"

definition spec_soc_after :: "GridState \<Rightarrow> real \<Rightarrow> real" where
  "spec_soc_after s battery_power =
     (let energy = battery_power * 0.1;
          energy = (if battery_power < 0 then energy * 0.95 else energy / 0.95)
      in min 1 (max 0 (battery_soc s - energy / battery_capacity s)))"

subsection \<open>What every twin built by the code satisfies\<close>

text \<open>A float within bounds; NaN is within none.\<close>

fun fl_between :: "real \<Rightarrow> pyfloat \<Rightarrow> real \<Rightarrow> bool" where
  "fl_between lo NaN hi = False"
| "fl_between lo (Num x) hi = (lo \<le> x \<and> x \<le> hi)"

fun fl_le :: "pyfloat \<Rightarrow> real \<Rightarrow> bool" where
  "fl_le NaN c = False"
| "fl_le (Num x) c = (x \<le> c)"

text \<open>
  \<^verbatim>\<open>battery_capacity\<close> is never assigned, so it keeps the default of the dataclass; the
  battery health starts at 1 and is only multiplied by 0.9999 and 0.8; the frequency is
  50, a clipped value, or NaN.
\<close>

definition twin_inv :: "MicrogridDigitalTwin \<Rightarrow> bool" where
  "twin_inv t \<longleftrightarrow>
     0 < battery_health (state t) \<and> battery_health (state t) \<le> 1 \<and>
     (grid_frequency (state t) = NaN \<or> fl_between 49 (grid_frequency (state t)) 51) \<and>
     battery_capacity (state t) = 1000"

subsection \<open>Example inputs\<close>

definition zero_noise :: noise where
  "zero_noise = \<lparr> cloud_noise = 0, wind_noise = 0, temp_noise = 0, load_noise = 0 \<rparr>"

definition mild_noise :: noise where
  "mild_noise = \<lparr> cloud_noise = 0, wind_noise = 0, temp_noise = 0, load_noise = - 0.2 \<rparr>"

definition example_draws :: init_draws where
  "example_draws = \<lparr> draw_day = 100, draw_cloud = 0.1, draw_wind = 13, draw_temp = 25,
                     draw_load_noise = 0, draw_soc = 0.5 \<rparr>"

definition charge_action :: "real list" where
  "charge_action = [1, 0, 0, 0, 0]"

definition hold_action :: "pyfloat list" where
  "hold_action = [Num 0, Num 0, Num 0, Num 0, Num 0.25]"

definition nan_shift_action :: "pyfloat list" where
  "nan_shift_action = [Num 0, Num 0, NaN, Num 0, Num 0]"

definition nan_curtailment_action :: "pyfloat list" where
  "nan_curtailment_action = [Num 0, Num 0, Num 0, Num 1, NaN]"

section \<open>The rule-based baseline controller\<close>

text \<open>
  \<^verbatim>\<open>LegacyGridController.get_action\<close>: the action starts as \<^verbatim>\<open>np.zeros(5)\<close> and the five
  rules assign its components in turn. The controller object holds only its name, which
  the method does not read.
\<close>

definition get_action :: "GridState \<Rightarrow> real list" where
  "get_action s =
     (let action = replicate 5 (0::real);
          renewable = solar_generation s + wind_generation s;
          load = load_demand s;
          surplus = renewable - load;
          action = (if surplus > 0 \<and> battery_soc s < 0.8
                    then action[0 := min (surplus / 200) 1] else action);
          action = (if surplus < 0 \<and> battery_soc s > 0.2
                    then action[1 := min (\<bar>surplus\<bar> / 200) 1] else action);
          action = (if stability_score s < 0.85 then action[2 := 0.5] else action);
          action = (if surplus < - 100 then action[3 := 0.8]
                    else if surplus < 0 then action[3 := 0.3] else action);
          action = (if battery_soc s > 0.95 \<and> surplus > 200
                    then action[4 := 0.3] else action)
      in action)"

text \<open>The controller as the specification words it, component by component.\<close>

definition baseline_spec :: "GridState \<Rightarrow> real list" where
  "baseline_spec s =
     (let surplus = solar_generation s + wind_generation s - load_demand s
      in [ if surplus > 0 \<and> battery_soc s < 0.8 then min (surplus / 200) 1 else 0,
           if surplus < 0 \<and> battery_soc s > 0.2 then min (\<bar>surplus\<bar> / 200) 1 else 0,
           if stability_score s < 0.85 then 0.5 else 0,
           if surplus < - 100 then 0.8 else if - 100 \<le> surplus \<and> surplus < 0 then 0.3 else 0,
           if battery_soc s > 0.95 \<and> surplus > 200 then 0.3 else 0 ])"

section \<open>The process-wide random generators\<close>

text \<open>
  \<^verbatim>\<open>__init__\<close> seeds the two generators of the process (\<^verbatim>\<open>np.random\<close> and \<^verbatim>\<open>random\<close>) when a
  seed is given; \<^verbatim>\<open>_initialize_state\<close>, \<^verbatim>\<open>_update_weather\<close> and \<^verbatim>\<open>_update_load_demand\<close> draw
  from them. No twin owns a generator. The state of both generators together is a value of
  a type \<open>'g\<close>; what the library functions compute is a parameter: the state after seeding
  both with one seed, and each draw as a function from the state to the value drawn and
  the next state.
\<close>

record 'g rand_ops =
  seeded :: "int \<Rightarrow> 'g"
  randint :: "'g \<Rightarrow> int \<Rightarrow> int \<Rightarrow> int \<times> 'g"
  uniform :: "'g \<Rightarrow> real \<Rightarrow> real \<Rightarrow> real \<times> 'g"
  normal :: "'g \<Rightarrow> real \<Rightarrow> real \<Rightarrow> real \<times> 'g"

text \<open>The draws of \<^verbatim>\<open>_initialize_state\<close>, in the order of the calls.\<close>

definition draw_init :: "'g rand_ops \<Rightarrow> 'g \<Rightarrow> init_draws \<times> 'g" where
  "draw_init ops g =
     (let (day, g) = randint ops g 1 365;
          (cloud, g) = uniform ops g 0 0.3;
          (wind, g) = uniform ops g 5 15;
          (temp, g) = uniform ops g 20 35;
          (load_z, g) = normal ops g 0 0.1;
          (soc, g) = uniform ops g 0.4 0.6
      in (\<lparr> draw_day = day, draw_cloud = cloud, draw_wind = wind, draw_temp = temp,
             draw_load_noise = load_z, draw_soc = soc \<rparr>, g))"

text \<open>The draws of one \<^verbatim>\<open>step\<close>: three in \<^verbatim>\<open>_update_weather\<close>, one in \<^verbatim>\<open>_update_load_demand\<close>.\<close>

definition draw_noise :: "'g rand_ops \<Rightarrow> 'g \<Rightarrow> noise \<times> 'g" where
  "draw_noise ops g =
     (let (zc, g) = normal ops g 0 0.05;
          (zw, g) = normal ops g 0 1;
          (zt, g) = normal ops g 0 1;
          (zl, g) = normal ops g 0 0.1
      in (\<lparr> cloud_noise = zc, wind_noise = zw, temp_noise = zt, load_noise = zl \<rparr>, g))"

definition construct_rng ::
  "'g rand_ops \<Rightarrow> int option \<Rightarrow> 'g \<Rightarrow> MicrogridDigitalTwin \<times> 'g" where
  "construct_rng ops seed g =
     (let g = (case seed of None \<Rightarrow> g | Some n \<Rightarrow> seeded ops n);
          (d, g) = draw_init ops g
      in (construct d, g))"

text \<open>
  \<^verbatim>\<open>step\<close> on the shared generators. A short action vector fails before anything is drawn.
\<close>

definition step_rng ::
  "'g rand_ops \<Rightarrow> MicrogridDigitalTwin \<Rightarrow> pyfloat list \<Rightarrow> 'g
     \<Rightarrow> (error + (MicrogridDigitalTwin \<times> pyfloat list \<times> real \<times> bool)) \<times> 'g" where
  "step_rng ops t action g =
     (if length action < 5 then (Inl IndexError, g)
      else (let (z, g) = draw_noise ops g in (step t action z, g)))"

text \<open>
  The trajectory of one twin under a list of actions: after each step the state, the
  observation, the reward and the \<^verbatim>\<open>done\<close> flag; it ends at the first exception.
\<close>

fun trajectory ::
  "'g rand_ops \<Rightarrow> MicrogridDigitalTwin \<Rightarrow> pyfloat list list \<Rightarrow> 'g
     \<Rightarrow> (error + (GridState \<times> pyfloat list \<times> real \<times> bool)) list \<times> 'g" where
  "trajectory ops t [] g = ([], g)"
| "trajectory ops t (action # rest) g =
     (case step_rng ops t action g of
        (Inl e, g') \<Rightarrow> ([Inl e], g')
      | (Inr r, g') \<Rightarrow>
          (case trajectory ops (fst r) rest g' of
             (tr, g'') \<Rightarrow> (Inr (state (fst r), snd r) # tr, g'')))"

text \<open>
  One instance on its own: constructed with a seed and stepped through the actions, with
  no other use of the generators in between. \<open>g\<close> is the state of the generators before.
\<close>

definition solo_run ::
  "'g rand_ops \<Rightarrow> int \<Rightarrow> pyfloat list list \<Rightarrow> 'g
     \<Rightarrow> GridState \<times> (error + (GridState \<times> pyfloat list \<times> real \<times> bool)) list" where
  "solo_run ops seed actions g =
     (case construct_rng ops (Some seed) g of
        (t, g') \<Rightarrow> (state t, fst (trajectory ops t actions g')))"

text \<open>
  Two instances side by side: both constructed with the same seed, then the first steps,
  then the second, with the same action. The result is the state of each after its step.
\<close>

definition side_by_side ::
  "'g rand_ops \<Rightarrow> int \<Rightarrow> pyfloat list \<Rightarrow> 'g
     \<Rightarrow> (error + GridState) \<times> (error + GridState)" where
  "side_by_side ops seed action g =
     (let (twin1, g) = construct_rng ops (Some seed) g;
          (twin2, g) = construct_rng ops (Some seed) g;
          (r1, g) = step_rng ops twin1 action g;
          (r2, g) = step_rng ops twin2 action g
      in (map_sum id (\<lambda>r. state (fst r)) r1, map_sum id (\<lambda>r. state (fst r)) r2))"

text \<open>
  Two instances one after the other: the first is constructed with the seed and stepped
  through the actions, then the second is constructed with the same seed and stepped
  through the same actions. The result is the initial state and the trajectory of each.
\<close>

definition one_after_the_other ::
  "'g rand_ops \<Rightarrow> int \<Rightarrow> pyfloat list list \<Rightarrow> 'g
     \<Rightarrow> (GridState \<times> (error + (GridState \<times> pyfloat list \<times> real \<times> bool)) list)
        \<times> (GridState \<times> (error + (GridState \<times> pyfloat list \<times> real \<times> bool)) list)" where
  "one_after_the_other ops seed actions g =
     (let (twin1, g) = construct_rng ops (Some seed) g;
          (trajectory1, g) = trajectory ops twin1 actions g;
          (twin2, g) = construct_rng ops (Some seed) g;
          (trajectory2, g) = trajectory ops twin2 actions g
      in ((state twin1, trajectory1), (state twin2, trajectory2)))"

text \<open>
  A generator to run the model on: its state counts the draws, seeding sets the count
  to the seed, and the draws cycle through the middle and the two ends of a small range.
\<close>

definition cycle3 :: "nat \<Rightarrow> real" where
  "cycle3 n = real (n mod 3) - 1"

definition counter_ops :: "nat rand_ops" where
  "counter_ops =
     \<lparr> seeded = (\<lambda>n. nat \<bar>n\<bar>),
       randint = (\<lambda>g lo hi. (lo + int (g mod 7), Suc g)),
       uniform = (\<lambda>g lo hi. ((lo + hi) / 2 + cycle3 g * (hi - lo) / 4, Suc g)),
       normal = (\<lambda>g loc scale. (loc + scale * cycle3 g, Suc g)) \<rparr>"

section \<open>The learning agent\<close>

text \<open>
  \<^verbatim>\<open>RLAgent\<close>: the two networks and the two optimizers are values of types that are not
  looked into; the buffer is a \<^verbatim>\<open>deque(maxlen=10000)\<close> of transitions.
\<close>

type_synonym transition = "pyfloat list \<times> pyfloat list \<times> real \<times> pyfloat list \<times> bool"

record ('p, 'v, 'o) RLAgent =
  policy :: 'p
  value_net :: 'v
  policy_optimizer :: 'o
  value_optimizer :: 'o
  buffer :: "transition list"

record metrics =
  policy_loss :: real
  value_loss :: real
  entropy :: real

definition store_transition ::
  "('p, 'v, 'o) RLAgent \<Rightarrow> transition \<Rightarrow> ('p, 'v, 'o) RLAgent" where
  "store_transition agent tr =
     agent\<lparr>buffer := (if length (buffer agent) = 10000 then tl (buffer agent)
                       else buffer agent) @ [tr]\<rparr>"

text \<open>
  \<^verbatim>\<open>train_step\<close>: the guard on the buffer length, then the update. The update (sampling the
  batch with the process-wide generator \<open>g\<close>, the advantages, ten epochs on each network)
  is a parameter \<open>ppo_update\<close>: it runs inside the tensor library.
\<close>

definition train_step ::
  "(('p, 'v, 'o) RLAgent \<Rightarrow> int \<Rightarrow> 'g \<Rightarrow> ('p, 'v, 'o) RLAgent \<times> metrics \<times> 'g)
     \<Rightarrow> ('p, 'v, 'o) RLAgent \<Rightarrow> int \<Rightarrow> 'g \<Rightarrow> ('p, 'v, 'o) RLAgent \<times> metrics \<times> 'g" where
  "train_step ppo_update agent batch_size g =
     (if int (length (buffer agent)) < batch_size
      then (agent, \<lparr> policy_loss = 0, value_loss = 0, entropy = 0 \<rparr>, g)
      else ppo_update agent batch_size g)"

section \<open>Results: the baseline controller\<close>

lemma replicate_5: "replicate 5 (x::real) = [x, x, x, x, x]"
  by (simp add: numeral_eq_Suc)

text \<open>
  C7. The baseline controller's action is a function of the grid state alone, and its
  five components are the ones the specification lists: charge \<open>min (surplus/200) 1\<close> when
  there is a surplus and the state of charge is below 0.8, discharge
  \<open>min (|surplus|/200) 1\<close> when there is a deficit and the state of charge is above 0.2,
  load shift 0.5 when the stability score is below 0.85, grid import 0.8 below a surplus
  of -100 and 0.3 for a smaller deficit, curtailment 0.3 when the battery is above 0.95
  and the surplus above 200; every other case gives 0. Equal states give equal actions.
\<close>

theorem get_action_is_baseline_spec:
  "get_action s = baseline_spec s \<and> (s = s' \<longrightarrow> get_action s = get_action s')"
  by (simp add: get_action_def baseline_spec_def Let_def replicate_5)

theorem get_action_is_baseline_spec_witness:
  "GridState_default = GridState_default
   \<and> get_action GridState_default = baseline_spec GridState_default
   \<and> get_action GridState_default = get_action GridState_default"
  using get_action_is_baseline_spec [of GridState_default GridState_default] by simp

section \<open>What each part of a step leaves alone\<close>

lemma advance_keeps:
  "battery_soc (state (advance t z)) = battery_soc (state t)"
  "battery_capacity (state (advance t z)) = battery_capacity (state t)"
  "battery_health (state (advance t z)) = battery_health (state t)"
  "grid_frequency (state (advance t z)) = grid_frequency (state t)"
  "time_step (advance t z) = time_step t + 1"
  "active_events (advance t z) = active_events t"
  "event_timers (advance t z) = event_timers t"
  by (simp_all add: advance_def Let_def update_weather_def update_solar_generation_def
      update_wind_generation_def update_load_demand_def)

lemma expire_events_keeps:
  "expire_events es t = Inr t' \<Longrightarrow>
     battery_soc (state t') = battery_soc (state t) \<and>
     battery_capacity (state t') = battery_capacity (state t) \<and>
     battery_health (state t') = battery_health (state t) \<and>
     solar_generation (state t') = solar_generation (state t) \<and>
     wind_generation (state t') = wind_generation (state t) \<and>
     load_demand (state t') = load_demand (state t) \<and>
     time_step t' = time_step t"
proof (induction es arbitrary: t)
  case Nil
  then show ?case by simp
next
  case (Cons e es)
  then show ?case
    by (auto simp: Let_def split: if_splits)
qed

lemma process_events_keeps:
  "process_events t = Inr t' \<Longrightarrow>
     battery_soc (state t') = battery_soc (state t) \<and>
     battery_capacity (state t') = battery_capacity (state t) \<and>
     battery_health (state t') = battery_health (state t) \<and>
     solar_generation (state t') = solar_generation (state t) \<and>
     wind_generation (state t') = wind_generation (state t) \<and>
     load_demand (state t') = load_demand (state t) \<and>
     time_step t' = time_step t"
  unfolding process_events_def
  by (auto split: prod.splits dest!: expire_events_keeps)

lemma settle_fields:
  "solar_generation (state (settle t a)) = solar_generation (state t)"
  "wind_generation (state (settle t a)) = wind_generation (state t)"
  "load_demand (state (settle t a)) = load_demand (state t)"
  "battery_health (state (settle t a)) = battery_health (state t) * 0.9999"
  "battery_capacity (state (settle t a)) = battery_capacity (state t)"
  "cloud_cover (state (settle t a)) = cloud_cover (state t)"
  "wind_speed (state (settle t a)) = wind_speed (state t)"
  "time_step (settle t a) = time_step t"
  "active_events (settle t a) = active_events t"
  "event_timers (settle t a) = event_timers t"
  by (simp_all add: settle_def Let_def update_grid_dynamics_def)

lemma update_stability_score_fields:
  "solar_generation (state (update_stability_score t)) = solar_generation (state t)"
  "wind_generation (state (update_stability_score t)) = wind_generation (state t)"
  "load_demand (state (update_stability_score t)) = load_demand (state t)"
  "battery_health (state (update_stability_score t)) = battery_health (state t)"
  "battery_capacity (state (update_stability_score t)) = battery_capacity (state t)"
  "battery_soc (state (update_stability_score t)) = battery_soc (state t)"
  "battery_charge_rate (state (update_stability_score t)) = battery_charge_rate (state t)"
  "grid_frequency (state (update_stability_score t)) = grid_frequency (state t)"
  "grid_voltage (state (update_stability_score t)) = grid_voltage (state t)"
  "cloud_cover (state (update_stability_score t)) = cloud_cover (state t)"
  "wind_speed (state (update_stability_score t)) = wind_speed (state t)"
  "time_step (update_stability_score t) = time_step t"
  "active_events (update_stability_score t) = active_events t"
  "event_timers (update_stability_score t) = event_timers t"
  by (simp_all add: update_stability_score_def Let_def)

lemma calculate_energy_cost_fields:
  "solar_generation (calculate_energy_cost s) = solar_generation s"
  "wind_generation (calculate_energy_cost s) = wind_generation s"
  "load_demand (calculate_energy_cost s) = load_demand s"
  "battery_health (calculate_energy_cost s) = battery_health s"
  "battery_capacity (calculate_energy_cost s) = battery_capacity s"
  "battery_soc (calculate_energy_cost s) = battery_soc s"
  "battery_charge_rate (calculate_energy_cost s) = battery_charge_rate s"
  "grid_frequency (calculate_energy_cost s) = grid_frequency s"
  "grid_voltage (calculate_energy_cost s) = grid_voltage s"
  "stability_score (calculate_energy_cost s) = stability_score s"
  "cloud_cover (calculate_energy_cost s) = cloud_cover s"
  "wind_speed (calculate_energy_cost s) = wind_speed s"
  by (simp_all add: calculate_energy_cost_def Let_def)

lemma fst_dispatch:
  "fst (dispatch t a) =
     (update_stability_score (settle t a))
       \<lparr>state := calculate_energy_cost (state (update_stability_score (settle t a)))\<rparr>"
  by (simp add: dispatch_def Let_def)

lemma done_dispatch:
  "snd (snd (snd (dispatch t a))) = check_termination (fst (dispatch t a))"
  by (simp add: dispatch_def Let_def)

lemma dispatch_fields:
  "solar_generation (state (fst (dispatch t a))) = solar_generation (state t)"
  "wind_generation (state (fst (dispatch t a))) = wind_generation (state t)"
  "load_demand (state (fst (dispatch t a))) = load_demand (state t)"
  "battery_health (state (fst (dispatch t a))) = battery_health (state t) * 0.9999"
  "battery_capacity (state (fst (dispatch t a))) = battery_capacity (state t)"
  "cloud_cover (state (fst (dispatch t a))) = cloud_cover (state t)"
  "wind_speed (state (fst (dispatch t a))) = wind_speed (state t)"
  "time_step (fst (dispatch t a)) = time_step t"
  "active_events (fst (dispatch t a)) = active_events t"
  "event_timers (fst (dispatch t a)) = event_timers t"
  by (simp_all add: fst_dispatch settle_fields update_stability_score_fields
      calculate_energy_cost_fields)

lemma step_cases:
  assumes "step t a z = Inr r"
  obtains t1 where "process_events (advance t z) = Inr t1" and "r = dispatch t1 a" and "5 \<le> length a"
  using assms by (auto simp: step_def split: if_splits sum.splits)

section \<open>Battery dispatch\<close>

lemma dispatch_charge_rate:
  "battery_charge_rate (state (fst (dispatch t a))) =
     battery_power_of (state t) (np_clip (a ! 0) 0 1) (np_clip (a ! 1) 0 1)
       (fl_map (\<lambda>c. (solar_generation (state t) + wind_generation (state t)) * (1 - c * 0.5))
          (np_clip (a ! 4) 0 1))
       (fl_map (\<lambda>c. load_demand (state t) * (1 - c * 0.2)) (np_clip (a ! 2) 0 1))"
  by (simp add: fst_dispatch update_stability_score_fields calculate_energy_cost_fields)
     (simp add: settle_def Let_def update_grid_dynamics_def)

lemma dispatch_soc:
  "battery_soc (state (fst (dispatch t a))) =
     (let p = battery_charge_rate (state (fst (dispatch t a)))
      in clip (battery_soc (state t)
               - (if p < 0 then p * dt * battery_efficiency else p * dt / battery_efficiency)
                 / battery_capacity (state t)) 0 1)"
  unfolding dispatch_charge_rate
  by (simp add: fst_dispatch update_stability_score_fields calculate_energy_cost_fields)
     (simp add: settle_def Let_def update_grid_dynamics_def)

lemma battery_power_of_spec:
  assumes "5 \<le> length a"
  shows "battery_power_of s (np_clip (map Num a ! 0) 0 1) (np_clip (map Num a ! 1) 0 1)
     (fl_map (\<lambda>c. (solar_generation s' + wind_generation s') * (1 - c * 0.5))
        (np_clip (map Num a ! 4) 0 1))
     (fl_map (\<lambda>c. load_demand s' * (1 - c * 0.2)) (np_clip (map Num a ! 2) 0 1))
   = spec_battery_power s s' a"
proof -
  have n: "map Num a ! 0 = Num (a ! 0)" "map Num a ! 1 = Num (a ! 1)"
    "map Num a ! 2 = Num (a ! 2)" "map Num a ! 4 = Num (a ! 4)"
    by (rule nth_map, use assms in linarith)+
  show ?thesis
    unfolding n
    by (simp add: spec_battery_power_def battery_power_of_def Let_def
        spec_curtailed_renewable_def spec_shifted_load_def dt_def battery_max_charge_rate_def
        cong: if_cong)
qed

lemma spec_soc_after_eq:
  "clip (battery_soc s - (if p < 0 then p * dt * battery_efficiency
              else p * dt / battery_efficiency) / battery_capacity s) 0 1
   = spec_soc_after s p"
  by (simp add: spec_soc_after_def Let_def dt_def battery_efficiency_def clip_def min.commute
    cong: if_cong)

lemma spec_battery_power_cong:
  "battery_soc s1 = battery_soc s2 \<Longrightarrow> battery_capacity s1 = battery_capacity s2 \<Longrightarrow>
   solar_generation s1' = solar_generation s2' \<Longrightarrow> wind_generation s1' = wind_generation s2' \<Longrightarrow>
   load_demand s1' = load_demand s2' \<Longrightarrow>
   spec_battery_power s1 s1' a = spec_battery_power s2 s2' a"
  by (simp add: spec_battery_power_def spec_curtailed_renewable_def spec_shifted_load_def
      cong: if_cong)

lemma spec_soc_after_cong:
  "battery_soc s1 = battery_soc s2 \<Longrightarrow> battery_capacity s1 = battery_capacity s2 \<Longrightarrow>
   spec_soc_after s1 p = spec_soc_after s2 p"
  by (simp add: spec_soc_after_def)

text \<open>
  C3. After a successful \<^verbatim>\<open>step\<close>, \<^verbatim>\<open>battery_charge_rate\<close> is the battery power of the
  specification: with the charge command above 0.5 and the state of charge below 0.95 the
  battery charges (negative power) at the least of the surplus of curtailed renewable
  over shifted load, command times 200 kW, and the headroom to 0.95 as a power; otherwise
  (the source's \<^verbatim>\<open>elif\<close>) with the discharge command above 0.5 and the state of charge above
  0.10 it discharges at the least of the deficit, command times 200 kW and the reserve
  above 0.10 as a power; otherwise the power is 0. The new state of charge is the old one
  minus the energy over the capacity, the energy multiplied by 0.95 when charging and
  divided by 0.95 when discharging, clamped to [0,1]. With a state of charge of 0.5, the
  action [1,0,0,0,0] and curtailed renewable above shifted load, the state of charge
  strictly increases and \<^verbatim>\<open>battery_charge_rate\<close> is negative. The action is any vector of
  numbers.
\<close>

theorem step_battery_dispatch:
  assumes "step t (map Num action) z = Inr (t', obs, reward, done)"
  shows "battery_charge_rate (state t') = spec_battery_power (state t) (state t') action
       \<and> battery_soc (state t') = spec_soc_after (state t) (battery_charge_rate (state t'))
       \<and> (battery_soc (state t) = 0.5 \<and> 0 < battery_capacity (state t)
            \<and> action = [1, 0, 0, 0, 0]
            \<and> spec_curtailed_renewable (state t') action > spec_shifted_load (state t') action
          \<longrightarrow> battery_soc (state t') > battery_soc (state t)
              \<and> battery_charge_rate (state t') < 0)"
proof -
  from assms obtain t1 where pe: "process_events (advance t z) = Inr t1"
    and r: "(t', obs, reward, done) = dispatch t1 (map Num action)"
    and len: "5 \<le> length action"
    by (rule step_cases) simp
  have t': "t' = fst (dispatch t1 (map Num action))" using r by (metis fst_conv)
  note k = process_events_keeps[OF pe]
  have soc1: "battery_soc (state t1) = battery_soc (state t)"
    and cap1: "battery_capacity (state t1) = battery_capacity (state t)"
    using k by (simp_all add: advance_keeps)
  have "battery_charge_rate (state t') = spec_battery_power (state t1) (state t1) action"
    unfolding t' by (rule trans[OF dispatch_charge_rate battery_power_of_spec[OF len]])
  also have "\<dots> = spec_battery_power (state t) (state t') action"
    by (rule spec_battery_power_cong) (simp_all add: soc1 cap1 t' dispatch_fields)
  finally have p: "battery_charge_rate (state t') = spec_battery_power (state t) (state t') action" .
  have "battery_soc (state t') = spec_soc_after (state t1) (battery_charge_rate (state t'))"
    unfolding t' by (subst dispatch_soc) (simp only: Let_def spec_soc_after_eq)
  also have "\<dots> = spec_soc_after (state t) (battery_charge_rate (state t'))"
    by (rule spec_soc_after_cong) (simp_all add: soc1 cap1)
  finally have q: "battery_soc (state t') = spec_soc_after (state t) (battery_charge_rate (state t'))" .
  have "battery_soc (state t') > battery_soc (state t) \<and> battery_charge_rate (state t') < 0"
    if soc: "battery_soc (state t) = 0.5" and cap: "0 < battery_capacity (state t)"
      and a: "action = [1, 0, 0, 0, 0]"
      and sur: "spec_curtailed_renewable (state t') action > spec_shifted_load (state t') action"
  proof -
    define x where "x = spec_curtailed_renewable (state t') action - spec_shifted_load (state t') action"
    define c where "c = battery_capacity (state t)"
    define cp where "cp = min x (min 200 (0.45 * c / 0.1))"
    have x: "0 < x" using sur by (simp add: x_def)
    have mx: "max 0 x = x" using x by simp
    have bp: "battery_charge_rate (state t') = - cp"
      unfolding p spec_battery_power_def Let_def x_def[symmetric] mx
      by (simp add: soc a clip_def cp_def c_def)
    have cp: "0 < cp" "cp \<le> 200" using x cap by (simp_all add: cp_def c_def)
    have neg: "battery_charge_rate (state t') < 0" using bp cp by simp
    have "battery_soc (state t') = min 1 (max 0 (0.5 - (- cp * 0.1) * 0.95 / c))"
      by (subst q) (simp add: spec_soc_after_def Let_def soc bp cp c_def)
    moreover have "0 < cp * 0.1 * 0.95 / c" using cp cap by (simp add: c_def)
    ultimately have "battery_soc (state t') > 0.5" by (simp add: min_def max_def)
    with neg soc show ?thesis by simp
  qed
  with p q show ?thesis by blast
qed

section \<open>Bounds on generation, load and the scores\<close>

lemma update_weather_fields:
  "battery_health (update_weather s zc zw zt) = battery_health s"
  "battery_capacity (update_weather s zc zw zt) = battery_capacity s"
  "battery_soc (update_weather s zc zw zt) = battery_soc s"
  "grid_frequency (update_weather s zc zw zt) = grid_frequency s"
  "time_of_day (update_weather s zc zw zt) = time_of_day s"
  "day_of_year (update_weather s zc zw zt) = day_of_year s"
  "cloud_cover (update_weather s zc zw zt) = clip (cloud_cover s + zc - 0.01) 0 1"
  "wind_speed (update_weather s zc zw zt) = clip (wind_speed s + zw) 0 25"
  "temperature (update_weather s zc zw zt) = 27 + 8 * cos ((time_of_day s - 14) * pi / 12) + zt"
  by (simp_all add: update_weather_def Let_def)

lemma update_solar_generation_fields:
  "wind_speed (update_solar_generation s) = wind_speed s"
  "cloud_cover (update_solar_generation s) = cloud_cover s"
  "time_of_day (update_solar_generation s) = time_of_day s"
  "day_of_year (update_solar_generation s) = day_of_year s"
  "battery_soc (update_solar_generation s) = battery_soc s"
  by (simp_all add: update_solar_generation_def Let_def)

lemma update_wind_generation_fields:
  "solar_generation (update_wind_generation s) = solar_generation s"
  "wind_speed (update_wind_generation s) = wind_speed s"
  "cloud_cover (update_wind_generation s) = cloud_cover s"
  "time_of_day (update_wind_generation s) = time_of_day s"
  "day_of_year (update_wind_generation s) = day_of_year s"
  "battery_soc (update_wind_generation s) = battery_soc s"
  by (simp_all add: update_wind_generation_def Let_def)

lemma update_load_demand_fields:
  "solar_generation (update_load_demand s zl) = solar_generation s"
  "wind_generation (update_load_demand s zl) = wind_generation s"
  "wind_speed (update_load_demand s zl) = wind_speed s"
  "cloud_cover (update_load_demand s zl) = cloud_cover s"
  "battery_soc (update_load_demand s zl) = battery_soc s"
  by (simp_all add: update_load_demand_def Let_def)

lemma clip_bounds: "lo \<le> hi \<Longrightarrow> lo \<le> clip x lo hi \<and> clip x lo hi \<le> hi"
  by (simp add: clip_def)

lemma solar_generation_nonneg:
  assumes "0 \<le> cloud_cover s" "cloud_cover s \<le> 1" "temperature s \<le> 275"
  shows "0 \<le> solar_generation (update_solar_generation s)"
proof -
  have a: "0 \<le> 1 - 0.8 * cloud_cover s" using assms by simp
  have b: "0 \<le> 1 + 0.2 * sin (2 * pi * of_int (day_of_year s) / 365)"
    using sin_ge_minus_one[of "2 * pi * of_int (day_of_year s) / 365"] by linarith
  have c: "0 \<le> 1 - 0.004 * max 0 (temperature s - 25)" using assms by (simp add: max_def)
  have d: "(0::real) \<le> max 0 (cos ((time_of_day s - 12) * pi / 12))" by simp
  have "0 \<le> solar_capacity * max 0 (cos ((time_of_day s - 12) * pi / 12))
            * (1 - 0.8 * cloud_cover s)
            * (1 + 0.2 * sin (2 * pi * of_int (day_of_year s) / 365))
            * (1 - 0.004 * max 0 (temperature s - 25))"
    using a b c d by (intro mult_nonneg_nonneg) (simp_all add: solar_capacity_def)
  then show ?thesis by (simp add: update_solar_generation_def Let_def)
qed

lemma solar_generation_le:
  assumes "0 \<le> cloud_cover s" "cloud_cover s \<le> 1"
  shows "solar_generation (update_solar_generation s) \<le> 600"
proof (cases "temperature s \<le> 275")
  case True
  define b where "b = max 0 (cos ((time_of_day s - 12) * pi / 12))"
  define cf where "cf = 1 - 0.8 * cloud_cover s"
  define sf where "sf = 1 + 0.2 * sin (2 * pi * of_int (day_of_year s) / 365)"
  define tf where "tf = 1 - 0.004 * max 0 (temperature s - 25)"
  have b: "0 \<le> b" "b \<le> 1" by (simp_all add: b_def)
  have cf: "0 \<le> cf" "cf \<le> 1" using assms by (simp_all add: cf_def)
  have sf: "0 \<le> sf" "sf \<le> 1.2"
    using sin_ge_minus_one[of "2 * pi * of_int (day_of_year s) / 365"]
      sin_le_one[of "2 * pi * of_int (day_of_year s) / 365"]
    unfolding sf_def by linarith+
  have tf: "0 \<le> tf" "tf \<le> 1" using True by (simp_all add: tf_def max_def)
  have 1: "b * cf \<le> 1 * 1" using b cf by (intro mult_mono) simp_all
  have 2: "b * cf * sf \<le> 1 * 1.2" using 1 b cf sf by (intro mult_mono) simp_all
  have 3: "b * cf * sf * tf \<le> 1.2 * 1" using 2 b cf sf tf by (intro mult_mono) simp_all
  have "solar_capacity * b * cf * sf * tf = 500 * (b * cf * sf * tf)"
    by (simp add: solar_capacity_def)
  also have "\<dots> \<le> 600" using 3 by simp
  finally have "solar_capacity * b * cf * sf * tf \<le> 600" .
  then show ?thesis
    by (simp add: update_solar_generation_def Let_def b_def cf_def sf_def tf_def)
next
  case False
  define b where "b = max 0 (cos ((time_of_day s - 12) * pi / 12))"
  define cf where "cf = 1 - 0.8 * cloud_cover s"
  define sf where "sf = 1 + 0.2 * sin (2 * pi * of_int (day_of_year s) / 365)"
  define tf where "tf = 1 - 0.004 * max 0 (temperature s - 25)"
  have b: "0 \<le> b" by (simp_all add: b_def)
  have cf: "0 \<le> cf" using assms by (simp_all add: cf_def)
  have sf: "0 \<le> sf"
    using sin_ge_minus_one[of "2 * pi * of_int (day_of_year s) / 365"]
    unfolding sf_def by linarith
  have tf: "tf \<le> 0" using False by (simp_all add: tf_def max_def)
  have "0 \<le> solar_capacity * b * cf * sf"
    using b cf sf by (intro mult_nonneg_nonneg) (simp_all add: solar_capacity_def)
  then have "solar_capacity * b * cf * sf * tf \<le> 0" using tf
    by (rule mult_nonneg_nonpos)
  then show ?thesis
    by (simp add: update_solar_generation_def Let_def b_def cf_def sf_def tf_def)
qed

lemma wind_generation_bounds:
  "0 \<le> wind_generation (update_wind_generation s) \<and> wind_generation (update_wind_generation s) \<le> 300"
  by (simp add: update_wind_generation_def Let_def wind_capacity_def)

lemma load_demand_clip:
  "\<exists>x. load_demand (update_load_demand s zl) = 800 * clip x 0.3 1"
  unfolding update_load_demand_def Let_def by (intro exI) (simp del: mult_numeral_left_semiring_numeral)

lemma load_demand_bounds:
  "240 \<le> load_demand (update_load_demand s zl) \<and> load_demand (update_load_demand s zl) \<le> 800"
proof -
  obtain x where x: "load_demand (update_load_demand s zl) = 800 * clip x 0.3 1"
    using load_demand_clip by blast
  show ?thesis unfolding x using clip_bounds[of "0.3" 1 x] by simp
qed

lemma state_advance:
  "state (advance t z) =
     update_load_demand (update_wind_generation (update_solar_generation
       (update_weather ((state t)\<lparr>time_of_day := fmod (time_of_day (state t) + dt) 24\<rparr>)
          (cloud_noise z) (wind_noise z) (temp_noise z)))) (load_noise z)"
  by (simp add: advance_def Let_def)

lemma advance_generation:
  assumes "temp_noise z \<le> 240"
  shows "0 \<le> solar_generation (state (advance t z))"
    and "0 \<le> wind_generation (state (advance t z))"
    and "240 \<le> load_demand (state (advance t z))"
    and "load_demand (state (advance t z)) \<le> 800"
proof -
  let ?w = "update_weather ((state t)\<lparr>time_of_day := fmod (time_of_day (state t) + dt) 24\<rparr>)
          (cloud_noise z) (wind_noise z) (temp_noise z)"
  have cc: "0 \<le> cloud_cover ?w" "cloud_cover ?w \<le> 1"
    using clip_bounds[of 0 1] by (simp_all add: update_weather_fields)
  have "cos ((time_of_day ((state t)\<lparr>time_of_day := fmod (time_of_day (state t) + dt) 24\<rparr>) - 14) * pi / 12) \<le> 1"
    by (rule cos_le_one)
  then have "temperature ?w \<le> 275" using assms
    unfolding update_weather_fields by linarith
  from solar_generation_nonneg[OF cc this]
  show "0 \<le> solar_generation (state (advance t z))"
    by (simp add: state_advance update_load_demand_fields update_wind_generation_fields)
  show "0 \<le> wind_generation (state (advance t z))"
    using wind_generation_bounds by (simp add: state_advance update_load_demand_fields)
  show "240 \<le> load_demand (state (advance t z))" "load_demand (state (advance t z)) \<le> 800"
    using load_demand_bounds by (simp_all add: state_advance)
qed

lemma max0_nonneg: "0 \<le> max0 x"
  by (cases x) simp_all

lemma fl_NaN_iff:
  "fl_map f x = NaN \<longleftrightarrow> x = NaN"
  "np_clip x lo hi = NaN \<longleftrightarrow> x = NaN"
  "fl_sub x y = NaN \<longleftrightarrow> x = NaN \<or> y = NaN"
  by (cases x; cases y; simp)+

lemma score_bounds:
  assumes "0 < c"
  shows "0 \<le> max0 (fl_map (\<lambda>d. 1 - d / c) (fl_map (\<lambda>f. \<bar>f - m\<bar>) x))"
    and "max0 (fl_map (\<lambda>d. 1 - d / c) (fl_map (\<lambda>f. \<bar>f - m\<bar>) x)) \<le> 1"
  using assms by (cases x; simp)+

lemma np_clip_cases:
  "lo \<le> hi \<Longrightarrow> np_clip x lo hi = NaN \<or> fl_between lo (np_clip x lo hi) hi"
  using clip_bounds by (cases x) simp_all

lemma balance_ratio_bounds:
  assumes "0 \<le> solar_generation s" "0 \<le> wind_generation s"
  shows "0 \<le> balance_ratio s \<and> balance_ratio s \<le> 1"
proof -
  have "0 \<le> solar_generation s + wind_generation s + \<bar>battery_charge_rate s\<bar> + max0 (grid_import s)"
    using assms max0_nonneg[of "grid_import s"] by simp
  moreover have "0 < max (load_demand s) 1" by simp
  ultimately have "0 \<le> (solar_generation s + wind_generation s + \<bar>battery_charge_rate s\<bar>
                     + max0 (grid_import s)) / max (load_demand s) 1"
    by (intro divide_nonneg_pos)
  then show ?thesis by (simp add: balance_ratio_def Let_def)
qed

lemma stability_score_update:
  "stability_score (state (update_stability_score t)) =
     0.3 * max0 (fl_map (\<lambda>d. 1 - d / 1) (fl_map (\<lambda>f. \<bar>f - 50\<bar>) (grid_frequency (state t))))
     + 0.3 * max0 (fl_map (\<lambda>d. 1 - d / 0.1) (fl_map (\<lambda>u. \<bar>u - 1\<bar>) (grid_voltage (state t))))
     + 0.2 * battery_health (state t) + 0.2 * balance_ratio (state t)"
  by (simp add: update_stability_score_def Let_def)

lemma stability_score_bounds:
  assumes "0 \<le> battery_health (state t)" "battery_health (state t) \<le> 1"
    and "0 \<le> solar_generation (state t)" "0 \<le> wind_generation (state t)"
  shows "0 \<le> stability_score (state (update_stability_score t))
       \<and> stability_score (state (update_stability_score t)) \<le> 1"
proof -
  define f where
    "f = max0 (fl_map (\<lambda>d. 1 - d / 1) (fl_map (\<lambda>f. \<bar>f - 50\<bar>) (grid_frequency (state t))))"
  define v where
    "v = max0 (fl_map (\<lambda>d. 1 - d / 0.1) (fl_map (\<lambda>u. \<bar>u - 1\<bar>) (grid_voltage (state t))))"
  have f: "0 \<le> f" "f \<le> 1" unfolding f_def by (rule score_bounds, simp)+
  have v: "0 \<le> v" "v \<le> 1" unfolding v_def by (rule score_bounds, simp)+
  note b = balance_ratio_bounds[OF assms(3,4)]
  have "stability_score (state (update_stability_score t)) =
          0.3 * f + 0.3 * v + 0.2 * battery_health (state t) + 0.2 * balance_ratio (state t)"
    unfolding stability_score_update f_def v_def ..
  with f v b assms(1,2) show ?thesis by simp
qed

lemma stability_score_le_one:
  assumes "battery_health (state t) \<le> 1"
  shows "stability_score (state (update_stability_score t)) \<le> 1"
proof -
  define f where
    "f = max0 (fl_map (\<lambda>d. 1 - d / 1) (fl_map (\<lambda>f. \<bar>f - 50\<bar>) (grid_frequency (state t))))"
  define v where
    "v = max0 (fl_map (\<lambda>d. 1 - d / 0.1) (fl_map (\<lambda>u. \<bar>u - 1\<bar>) (grid_voltage (state t))))"
  have f: "f \<le> 1" unfolding f_def by (rule score_bounds, simp)
  have v: "v \<le> 1" unfolding v_def by (rule score_bounds, simp)
  have b: "balance_ratio (state t) \<le> 1" by (simp add: balance_ratio_def Let_def)
  have "stability_score (state (update_stability_score t)) =
          0.3 * f + 0.3 * v + 0.2 * battery_health (state t) + 0.2 * balance_ratio (state t)"
    unfolding stability_score_update f_def v_def ..
  with f v b assms show ?thesis by simp
qed

lemma settle_clips:
  "\<exists>x. battery_soc (state (settle t a)) = clip x 0 1"
  "\<exists>p. grid_frequency (state (settle t a)) = np_clip p 49 51"
  "\<exists>p. grid_voltage (state (settle t a)) = np_clip p 0.9 1.1"
  unfolding settle_def Let_def update_grid_dynamics_def
  by (rule exI, simp)+

lemma settle_nan_iff:
  "grid_frequency (state (settle t a)) = NaN \<longleftrightarrow> a ! 2 = NaN \<or> a ! 4 = NaN"
  "grid_voltage (state (settle t a)) = NaN \<longleftrightarrow> a ! 2 = NaN \<or> a ! 4 = NaN"
  unfolding settle_def Let_def update_grid_dynamics_def
  by (simp_all add: fl_NaN_iff)

lemma settle_clipped:
  "0 \<le> battery_soc (state (settle t a))" "battery_soc (state (settle t a)) \<le> 1"
  "grid_frequency (state (settle t a)) = NaN \<or> fl_between 49 (grid_frequency (state (settle t a))) 51"
  "grid_voltage (state (settle t a)) = NaN \<or> fl_between 0.9 (grid_voltage (state (settle t a))) 1.1"
proof -
  obtain x p q where e: "battery_soc (state (settle t a)) = clip x 0 1"
    "grid_frequency (state (settle t a)) = np_clip p 49 51"
    "grid_voltage (state (settle t a)) = np_clip q 0.9 1.1"
    using settle_clips[of t a] by blast
  show "0 \<le> battery_soc (state (settle t a))" "battery_soc (state (settle t a)) \<le> 1"
    unfolding e using clip_bounds[of 0 1 x] by simp_all
  show "grid_frequency (state (settle t a)) = NaN
        \<or> fl_between 49 (grid_frequency (state (settle t a))) 51"
    unfolding e by (rule np_clip_cases) simp
  show "grid_voltage (state (settle t a)) = NaN
        \<or> fl_between 0.9 (grid_voltage (state (settle t a))) 1.1"
    unfolding e by (rule np_clip_cases) simp
qed

lemma dispatch_clipped:
  "0 \<le> battery_soc (state (fst (dispatch t a)))"
  "battery_soc (state (fst (dispatch t a))) \<le> 1"
  "grid_frequency (state (fst (dispatch t a))) = NaN
     \<or> fl_between 49 (grid_frequency (state (fst (dispatch t a)))) 51"
  "grid_voltage (state (fst (dispatch t a))) = NaN
     \<or> fl_between 0.9 (grid_voltage (state (fst (dispatch t a)))) 1.1"
  "grid_frequency (state (fst (dispatch t a))) = NaN \<longleftrightarrow> a ! 2 = NaN \<or> a ! 4 = NaN"
  "grid_voltage (state (fst (dispatch t a))) = NaN \<longleftrightarrow> a ! 2 = NaN \<or> a ! 4 = NaN"
  using settle_clipped[of t a] settle_nan_iff[of t a]
  by (simp_all add: fst_dispatch calculate_energy_cost_fields update_stability_score_fields)

lemma dispatch_bounds:
  assumes "0 \<le> battery_health (state t)" "battery_health (state t) \<le> 1"
    and "0 \<le> solar_generation (state t)" "0 \<le> wind_generation (state t)"
  shows "0 \<le> stability_score (state (fst (dispatch t a)))"
    and "stability_score (state (fst (dispatch t a))) \<le> 1"
proof -
  have h: "0 \<le> battery_health (state (settle t a))" "battery_health (state (settle t a)) \<le> 1"
    using assms(1,2) by (simp_all add: settle_fields)
  have g: "0 \<le> solar_generation (state (settle t a))" "0 \<le> wind_generation (state (settle t a))"
    using assms(3,4) by (simp_all add: settle_fields)
  from stability_score_bounds[OF h g]
  show "0 \<le> stability_score (state (fst (dispatch t a)))"
    and "stability_score (state (fst (dispatch t a))) \<le> 1"
    by (simp_all add: fst_dispatch calculate_energy_cost_fields)
qed

section \<open>Construction, reset and the invariant\<close>

lemma more_fields:
  "time_of_day (state (update_stability_score t)) = time_of_day (state t)"
  "day_of_year (state (update_stability_score t)) = day_of_year (state t)"
  "time_of_day (calculate_energy_cost s) = time_of_day s"
  "day_of_year (calculate_energy_cost s) = day_of_year s"
  "battery_health (update_load_demand s zl) = battery_health s"
  "battery_capacity (update_load_demand s zl) = battery_capacity s"
  "grid_frequency (update_load_demand s zl) = grid_frequency s"
  "time_of_day (update_load_demand s zl) = time_of_day s"
  "day_of_year (update_load_demand s zl) = day_of_year s"
  "battery_health (update_wind_generation s) = battery_health s"
  "battery_capacity (update_wind_generation s) = battery_capacity s"
  "grid_frequency (update_wind_generation s) = grid_frequency s"
  "battery_health (update_solar_generation s) = battery_health s"
  "battery_capacity (update_solar_generation s) = battery_capacity s"
  "grid_frequency (update_solar_generation s) = grid_frequency s"
  by (simp_all add: update_stability_score_def calculate_energy_cost_def update_load_demand_def
      update_wind_generation_def update_solar_generation_def Let_def)

lemma state_initialize_state:
  "initialize_state t d =
     (let s = update_load_demand (update_wind_generation (update_solar_generation
                ((state t)\<lparr>time_of_day := 12, day_of_year := draw_day d,
                           cloud_cover := draw_cloud d, wind_speed := draw_wind d,
                           temperature := draw_temp d\<rparr>))) (draw_load_noise d);
          t1 = update_stability_score
                 (t\<lparr>state := s\<lparr>battery_soc := draw_soc d, battery_health := 1,
                                grid_frequency := Num 50, grid_voltage := Num 1\<rparr>\<rparr>)
      in t1\<lparr>state := calculate_energy_cost (state t1)\<rparr>)"
  by (simp add: initialize_state_def Let_def)

lemma initialize_state_fields:
  "battery_health (state (initialize_state t d)) = 1"
  "battery_capacity (state (initialize_state t d)) = battery_capacity (state t)"
  "grid_frequency (state (initialize_state t d)) = Num 50"
  "battery_soc (state (initialize_state t d)) = draw_soc d"
  "wind_speed (state (initialize_state t d)) = draw_wind d"
  "cloud_cover (state (initialize_state t d)) = draw_cloud d"
  "time_of_day (state (initialize_state t d)) = 12"
  "day_of_year (state (initialize_state t d)) = draw_day d"
  "time_step (initialize_state t d) = time_step t"
  "active_events (initialize_state t d) = active_events t"
  "event_timers (initialize_state t d) = event_timers t"
  by (simp_all add: state_initialize_state Let_def update_stability_score_fields
      calculate_energy_cost_fields more_fields update_load_demand_fields
      update_wind_generation_fields update_solar_generation_fields)

lemma construct_fields:
  "battery_health (state (construct d)) = 1"
  "battery_capacity (state (construct d)) = 1000"
  "grid_frequency (state (construct d)) = Num 50"
  "battery_soc (state (construct d)) = draw_soc d"
  "wind_speed (state (construct d)) = draw_wind d"
  "cloud_cover (state (construct d)) = draw_cloud d"
  "time_of_day (state (construct d)) = 12"
  "day_of_year (state (construct d)) = draw_day d"
  "time_step (construct d) = 0"
  "active_events (construct d) = []"
  "event_timers (construct d) = Map.empty"
  by (simp_all add: construct_def initialize_state_fields GridState_default_def)

lemma reset_fields:
  "battery_health (state (fst (reset t d))) = 1"
  "battery_capacity (state (fst (reset t d))) = battery_capacity (state t)"
  "grid_frequency (state (fst (reset t d))) = Num 50"
  "time_step (fst (reset t d)) = 0"
  "active_events (fst (reset t d)) = []"
  "event_timers (fst (reset t d)) = Map.empty"
  by (simp_all add: reset_def Let_def initialize_state_fields)

lemma inject_event_fields:
  "battery_capacity (state (inject_event t k)) = battery_capacity (state t)"
  "grid_frequency (state (inject_event t k)) = grid_frequency (state t)"
  "time_step (inject_event t k) = time_step t"
  "battery_health (state (inject_event t k)) =
     (if k = ''battery_degradation'' then battery_health (state t) * 0.8
      else battery_health (state t))"
  by (simp_all add: inject_event_def)

lemma step_fields:
  assumes "step t a z = Inr r"
  shows "battery_health (state (fst r)) = battery_health (state t) * 0.9999"
    and "battery_capacity (state (fst r)) = battery_capacity (state t)"
    and "time_step (fst r) = time_step t + 1"
    and "grid_frequency (state (fst r)) = NaN \<or> fl_between 49 (grid_frequency (state (fst r))) 51"
    and "grid_voltage (state (fst r)) = NaN \<or> fl_between 0.9 (grid_voltage (state (fst r))) 1.1"
    and "grid_frequency (state (fst r)) = NaN \<longleftrightarrow> a ! 2 = NaN \<or> a ! 4 = NaN"
    and "grid_voltage (state (fst r)) = NaN \<longleftrightarrow> a ! 2 = NaN \<or> a ! 4 = NaN"
    and "snd (snd (snd r)) = check_termination (fst r)"
proof -
  from assms obtain t1 where pe: "process_events (advance t z) = Inr t1"
    and r: "r = dispatch t1 a"
    by (rule step_cases)
  note k = process_events_keeps[OF pe]
  show "battery_health (state (fst r)) = battery_health (state t) * 0.9999"
    and "battery_capacity (state (fst r)) = battery_capacity (state t)"
    and "time_step (fst r) = time_step t + 1"
    using k by (simp_all add: r dispatch_fields advance_keeps)
  show "grid_frequency (state (fst r)) = NaN \<or> fl_between 49 (grid_frequency (state (fst r))) 51"
    and "grid_voltage (state (fst r)) = NaN \<or> fl_between 0.9 (grid_voltage (state (fst r))) 1.1"
    and "grid_frequency (state (fst r)) = NaN \<longleftrightarrow> a ! 2 = NaN \<or> a ! 4 = NaN"
    and "grid_voltage (state (fst r)) = NaN \<longleftrightarrow> a ! 2 = NaN \<or> a ! 4 = NaN"
    unfolding r by (rule dispatch_clipped)+
  show "snd (snd (snd r)) = check_termination (fst r)"
    by (simp add: r done_dispatch)
qed

lemma twin_inv_construct: "twin_inv (construct d)"
  by (simp add: twin_inv_def construct_fields)

lemma twin_inv_exec:
  assumes "twin_inv t" "exec t c = Inr t'"
  shows "twin_inv t'"
proof (cases c)
  case (Step a z)
  with assms(2) obtain r where r: "step t a z = Inr r" and t': "t' = fst r"
    by (auto split: sum.splits)
  from step_fields[OF r] assms(1) show ?thesis
    by (simp add: twin_inv_def t')
next
  case (InjectEvent k)
  with assms show ?thesis
    by (auto simp: twin_inv_def inject_event_fields)
next
  case (Reset d)
  with assms show ?thesis
    by (auto simp: twin_inv_def reset_fields)
qed

lemma twin_inv_run:
  "twin_inv t \<Longrightarrow> run t cs = Inr t' \<Longrightarrow> twin_inv t'"
proof (induction cs arbitrary: t)
  case Nil
  then show ?case by simp
next
  case (Cons c cs)
  then show ?case
    by (auto split: sum.splits dest: twin_inv_exec)
qed

lemma reachable_inv: "run (construct d) cs = Inr t \<Longrightarrow> twin_inv t"
  using twin_inv_construct twin_inv_run by blast

section \<open>Runs of calls\<close>

lemma process_events_no_events:
  "active_events t = [] \<Longrightarrow> process_events t = Inr t"
  by (simp add: process_events_def)

lemma step_no_events:
  "active_events t = [] \<Longrightarrow> 5 \<le> length a \<Longrightarrow> step t a z = Inr (dispatch (advance t z) a)"
  by (simp add: step_def process_events_no_events advance_keeps)

lemma Inr_projr: "x = Inr r \<Longrightarrow> x = Inr (projr x)"
  by simp

lemma time_step_exec:
  "exec t c = Inr t' \<Longrightarrow> time_step t' = steps_since_reset (time_step t) [c]"
  by (cases c) (auto split: sum.splits simp: inject_event_fields reset_fields dest: step_fields(3))

lemma steps_since_reset_Cons:
  "steps_since_reset n (c # cs) = steps_since_reset (steps_since_reset n [c]) cs"
  by (cases c) simp_all

lemma time_step_run:
  "run t cs = Inr t' \<Longrightarrow> time_step t' = steps_since_reset (time_step t) cs"
proof (induction cs arbitrary: t)
  case Nil
  then show ?case by simp
next
  case (Cons c cs)
  from Cons.prems obtain t1 where e: "exec t c = Inr t1" and r: "run t1 cs = Inr t'"
    by (auto split: sum.splits)
  from Cons.IH[OF r] time_step_exec[OF e] show ?case
    by (subst steps_since_reset_Cons) simp
qed

lemma health_exec:
  assumes "twin_inv t" "exec t c = Inr t'" "\<not> has_reset [c]"
  shows "battery_health (state t') \<le> battery_health (state t)"
proof (cases c)
  case (Step a z)
  with assms(2) obtain r where r: "step t a z = Inr r" and t': "t' = fst r"
    by (auto split: sum.splits)
  from step_fields(1)[OF r] assms(1) show ?thesis
    by (simp add: twin_inv_def t')
next
  case (InjectEvent k)
  with assms show ?thesis
    by (auto simp: twin_inv_def inject_event_fields)
next
  case (Reset d)
  with assms(3) show ?thesis by simp
qed

lemma has_reset_Cons: "has_reset (c # cs) \<longleftrightarrow> has_reset [c] \<or> has_reset cs"
  by (cases c) simp_all

lemma health_run:
  "twin_inv t \<Longrightarrow> \<not> has_reset cs \<Longrightarrow> run t cs = Inr t' \<Longrightarrow>
   battery_health (state t') \<le> battery_health (state t)"
proof (induction cs arbitrary: t)
  case Nil
  then show ?case by simp
next
  case (Cons c cs)
  from Cons.prems(3) obtain t1 where e: "exec t c = Inr t1" and r: "run t1 cs = Inr t'"
    by (auto split: sum.splits)
  from Cons.prems(2) have nr: "\<not> has_reset [c]" "\<not> has_reset cs"
    using has_reset_Cons by blast+
  have "battery_health (state t') \<le> battery_health (state t1)"
    using Cons.IH[OF twin_inv_exec[OF Cons.prems(1) e] nr(2) r] .
  also have "\<dots> \<le> battery_health (state t)"
    using health_exec[OF Cons.prems(1) e nr(1)] .
  finally show ?case .
qed

section \<open>The claims about bounds, health and termination\<close>

lemma example_step:
  assumes "5 \<le> length a"
  shows "step (construct example_draws) a z = Inr (projr (step (construct example_draws) a z))"
  by (rule Inr_projr, rule step_no_events) (simp_all add: construct_fields assms)

lemma fl_le_abs:
  "fl_between (c - r) x (c + r) \<Longrightarrow> fl_le (fl_map (\<lambda>f. \<bar>f - c\<bar>) x) r"
  by (cases x) (simp_all add: abs_le_iff)

lemma check_termination_no_frequency:
  assumes "grid_frequency (state t) = NaN \<or> fl_between 49 (grid_frequency (state t)) 51"
  shows "\<not> fl_gt (fl_map (\<lambda>f. \<bar>f - 50\<bar>) (grid_frequency (state t))) 2"
    and "check_termination t \<longleftrightarrow>
           stability_score (state t) < 0.5 \<or> battery_health (state t) < 0.5 \<or> time_step t > 1000"
proof -
  show n: "\<not> fl_gt (fl_map (\<lambda>f. \<bar>f - 50\<bar>) (grid_frequency (state t))) 2"
    using assms by (cases "grid_frequency (state t)") (auto simp: abs_if)
  show "check_termination t \<longleftrightarrow>
           stability_score (state t) < 0.5 \<or> battery_health (state t) < 0.5 \<or> time_step t > 1000"
    using n by (auto simp: check_termination_def)
qed

text \<open>
  C1. Take any twin that the code can have built: a constructed twin after any sequence
  of \<^verbatim>\<open>step\<close>, \<^verbatim>\<open>inject_event\<close> and \<^verbatim>\<open>reset\<close> calls. After one more \<^verbatim>\<open>step\<close> with any
  action vector, NaN components included, the state of charge lies in [0,1] and the
  stability score is at most 1. The frequency and the voltage are NaN exactly when the
  load-shift component or the curtailment component of the action is NaN; when neither is,
  the frequency lies in [49,51] and the voltage in [0.9,1.1]. The stability score is at
  least 0 when the temperature draw of that step is at most 240 (it is a standard normal
  draw): from a panel temperature of 275 on, the derating factor of the solar model is
  negative, and solar generation and the balance term of the score with it.
\<close>

theorem step_keeps_state_in_bounds:
  assumes "run (construct d) cs = Inr t"
    and "step t action z = Inr (t', obs, reward, done)"
  shows "0 \<le> battery_soc (state t') \<and> battery_soc (state t') \<le> 1
       \<and> stability_score (state t') \<le> 1
       \<and> (temp_noise z \<le> 240 \<longrightarrow> 0 \<le> stability_score (state t'))
       \<and> (grid_frequency (state t') = NaN \<longleftrightarrow> action ! 2 = NaN \<or> action ! 4 = NaN)
       \<and> (grid_voltage (state t') = NaN \<longleftrightarrow> action ! 2 = NaN \<or> action ! 4 = NaN)
       \<and> (action ! 2 \<noteq> NaN \<and> action ! 4 \<noteq> NaN \<longrightarrow>
            fl_between 49 (grid_frequency (state t')) 51
            \<and> fl_between 0.9 (grid_voltage (state t')) 1.1)"
proof -
  have inv: "twin_inv t" using assms(1) by (rule reachable_inv)
  from assms(2) obtain t1 where pe: "process_events (advance t z) = Inr t1"
    and r: "(t', obs, reward, done) = dispatch t1 action"
    by (rule step_cases)
  have t': "t' = fst (dispatch t1 action)" using r by (metis fst_conv)
  note k = process_events_keeps[OF pe]
  have h: "0 \<le> battery_health (state t1)" "battery_health (state t1) \<le> 1"
    using k inv by (simp_all add: advance_keeps twin_inv_def)
  have "battery_health (state (settle t1 action)) \<le> 1"
    using h by (simp add: settle_fields)
  from stability_score_le_one[OF this]
  have le: "stability_score (state t') \<le> 1"
    by (simp add: t' fst_dispatch calculate_energy_cost_fields)
  note cl = dispatch_clipped[of t1 action, folded t']
  have ge: "0 \<le> stability_score (state t')" if z: "temp_noise z \<le> 240"
  proof -
    have g: "0 \<le> solar_generation (state t1)" "0 \<le> wind_generation (state t1)"
      using k advance_generation(1,2)[OF z, of t] by simp_all
    from dispatch_bounds(1)[OF h g, of action] show ?thesis unfolding t' .
  qed
  have band: "fl_between 49 (grid_frequency (state t')) 51
            \<and> fl_between 0.9 (grid_voltage (state t')) 1.1"
    if "action ! 2 \<noteq> NaN \<and> action ! 4 \<noteq> NaN"
    using cl(3,4,5,6) that by blast
  from le cl(1,2,5,6) ge band show ?thesis by blast
qed

theorem step_keeps_state_in_bounds_witness:
  "run (construct example_draws) [] = Inr (construct example_draws)
   \<and> step (construct example_draws) (map Num charge_action) zero_noise
       = Inr (projr (step (construct example_draws) (map Num charge_action) zero_noise))
   \<and> temp_noise zero_noise \<le> 240
   \<and> map Num charge_action ! 2 \<noteq> NaN \<and> map Num charge_action ! 4 \<noteq> NaN
   \<and> 0 \<le> battery_soc (state (fst (projr (step (construct example_draws) (map Num charge_action) zero_noise))))
   \<and> 0 \<le> stability_score (state (fst (projr (step (construct example_draws) (map Num charge_action) zero_noise))))
   \<and> stability_score (state (fst (projr (step (construct example_draws) (map Num charge_action) zero_noise)))) \<le> 1
   \<and> fl_between 49 (grid_frequency (state (fst (projr (step (construct example_draws) (map Num charge_action) zero_noise))))) 51
   \<and> fl_between 0.9 (grid_voltage (state (fst (projr (step (construct example_draws) (map Num charge_action) zero_noise))))) 1.1"
proof -
  have r: "run (construct example_draws) [] = Inr (construct example_draws)" by simp
  have s: "step (construct example_draws) (map Num charge_action) zero_noise
           = Inr (projr (step (construct example_draws) (map Num charge_action) zero_noise))"
    by (rule example_step) (simp add: charge_action_def)
  have z: "temp_noise zero_noise \<le> 240" by (simp add: zero_noise_def)
  have a: "map Num charge_action ! 2 \<noteq> NaN \<and> map Num charge_action ! 4 \<noteq> NaN"
    by (simp add: charge_action_def)
  obtain t' obs reward dn where
    p: "projr (step (construct example_draws) (map Num charge_action) zero_noise)
        = (t', obs, reward, dn)"
    by (metis prod_cases4)
  from step_keeps_state_in_bounds[OF r s[unfolded p]] z a
  have "0 \<le> battery_soc (state t') \<and> 0 \<le> stability_score (state t')
      \<and> stability_score (state t') \<le> 1
      \<and> fl_between 49 (grid_frequency (state t')) 51
      \<and> fl_between 0.9 (grid_voltage (state t')) 1.1"
    by blast
  with r s z a show ?thesis
    unfolding p fst_conv by blast
qed

text \<open>
  The twin of the example draws, stepped once with an action whose load-shift component
  is NaN: the shifted load, the grid balance and the frequency deviation are NaN,
  \<^verbatim>\<open>np.clip\<close> lets NaN through, and the step returns with a frequency and a voltage that lie
  in no interval.
\<close>

theorem step_nan_action_counterexample:
  "length nan_shift_action = 5
   \<and> step (construct example_draws) nan_shift_action zero_noise
       = Inr (projr (step (construct example_draws) nan_shift_action zero_noise))
   \<and> grid_frequency (state (fst (projr (step (construct example_draws) nan_shift_action zero_noise))))
       = NaN
   \<and> grid_voltage (state (fst (projr (step (construct example_draws) nan_shift_action zero_noise))))
       = NaN
   \<and> \<not> fl_between 49
         (grid_frequency (state (fst (projr (step (construct example_draws) nan_shift_action zero_noise)))))
         51
   \<and> \<not> fl_between 0.9
         (grid_voltage (state (fst (projr (step (construct example_draws) nan_shift_action zero_noise)))))
         1.1"
proof -
  have s: "step (construct example_draws) nan_shift_action zero_noise
           = Inr (projr (step (construct example_draws) nan_shift_action zero_noise))"
    by (rule example_step) (simp add: nan_shift_action_def)
  have n: "nan_shift_action ! 2 = NaN" by (simp add: nan_shift_action_def)
  from step_fields(6,7)[OF s] n
  have "grid_frequency (state (fst (projr (step (construct example_draws) nan_shift_action zero_noise))))
       = NaN"
    and "grid_voltage (state (fst (projr (step (construct example_draws) nan_shift_action zero_noise))))
       = NaN"
    by simp_all
  with s show ?thesis by (simp add: nan_shift_action_def)
qed

text \<open>
  C10. In every state the code can reach, the frequency is NaN or within 1 Hz of 50. Either
  way the frequency test of \<^verbatim>\<open>_check_termination\<close> (more than 2 Hz) is false, a comparison
  with NaN being false: the termination test, and the \<^verbatim>\<open>done\<close> flag that \<^verbatim>\<open>step\<close> returns, hold
  exactly when the stability score is below 0.5, the battery health is below 0.5, or the
  step counter is above 1000. After a \<^verbatim>\<open>step\<close> the frequency is NaN exactly when the
  load-shift component or the curtailment component of the action is NaN.
\<close>

theorem frequency_exit_unreachable:
  assumes "run (construct d) cs = Inr t"
  shows "(grid_frequency (state t) = NaN
          \<or> fl_le (fl_map (\<lambda>f. \<bar>f - 50\<bar>) (grid_frequency (state t))) 1)
       \<and> \<not> fl_gt (fl_map (\<lambda>f. \<bar>f - 50\<bar>) (grid_frequency (state t))) 2
       \<and> (check_termination t \<longleftrightarrow>
            stability_score (state t) < 0.5 \<or> battery_health (state t) < 0.5
            \<or> time_step t > 1000)
       \<and> (step t action z = Inr (t', obs, reward, done) \<longrightarrow>
            (done \<longleftrightarrow> stability_score (state t') < 0.5 \<or> battery_health (state t') < 0.5
                      \<or> time_step t' > 1000)
            \<and> (grid_frequency (state t') = NaN \<longleftrightarrow> action ! 2 = NaN \<or> action ! 4 = NaN)
            \<and> (action ! 2 \<noteq> NaN \<and> action ! 4 \<noteq> NaN \<longrightarrow>
                 fl_le (fl_map (\<lambda>f. \<bar>f - 50\<bar>) (grid_frequency (state t'))) 1))"
proof -
  have inv: "twin_inv t" using assms by (rule reachable_inv)
  then have i: "grid_frequency (state t) = NaN \<or> fl_between 49 (grid_frequency (state t)) 51"
    by (simp add: twin_inv_def)
  have f: "grid_frequency (state t) = NaN
          \<or> fl_le (fl_map (\<lambda>f. \<bar>f - 50\<bar>) (grid_frequency (state t))) 1"
    using i fl_le_abs[of 50 1 "grid_frequency (state t)"] by auto
  note c = check_termination_no_frequency[OF i]
  have "(done \<longleftrightarrow> stability_score (state t') < 0.5 \<or> battery_health (state t') < 0.5
                      \<or> time_step t' > 1000)
        \<and> (grid_frequency (state t') = NaN \<longleftrightarrow> action ! 2 = NaN \<or> action ! 4 = NaN)
        \<and> (action ! 2 \<noteq> NaN \<and> action ! 4 \<noteq> NaN \<longrightarrow>
                 fl_le (fl_map (\<lambda>f. \<bar>f - 50\<bar>) (grid_frequency (state t'))) 1)"
    if s: "step t action z = Inr (t', obs, reward, done)"
  proof -
    note sf = step_fields[OF s, unfolded fst_conv snd_conv]
    have j: "grid_frequency (state t') = NaN \<or> fl_between 49 (grid_frequency (state t')) 51"
      by (rule sf(4))
    have d: "done = check_termination t'" by (rule sf(8))
    have "fl_le (fl_map (\<lambda>f. \<bar>f - 50\<bar>) (grid_frequency (state t'))) 1"
      if "action ! 2 \<noteq> NaN \<and> action ! 4 \<noteq> NaN"
      using j sf(6) that fl_le_abs[of 50 1 "grid_frequency (state t')"] by auto
    with check_termination_no_frequency(2)[OF j] d sf(6) show ?thesis by blast
  qed
  with f c show ?thesis by blast
qed

theorem frequency_exit_unreachable_witness:
  "run (construct example_draws) [] = Inr (construct example_draws)
   \<and> step (construct example_draws) (map Num charge_action) zero_noise
       = Inr (projr (step (construct example_draws) (map Num charge_action) zero_noise))
   \<and> map Num charge_action ! 2 \<noteq> NaN \<and> map Num charge_action ! 4 \<noteq> NaN
   \<and> fl_le (fl_map (\<lambda>f. \<bar>f - 50\<bar>) (grid_frequency (state (construct example_draws)))) 1
   \<and> fl_le (fl_map (\<lambda>f. \<bar>f - 50\<bar>)
        (grid_frequency (state (fst (projr (step (construct example_draws) (map Num charge_action) zero_noise)))))) 1
   \<and> (snd (snd (snd (projr (step (construct example_draws) (map Num charge_action) zero_noise)))) \<longleftrightarrow>
        stability_score (state (fst (projr (step (construct example_draws) (map Num charge_action) zero_noise)))) < 0.5
        \<or> battery_health (state (fst (projr (step (construct example_draws) (map Num charge_action) zero_noise)))) < 0.5
        \<or> time_step (fst (projr (step (construct example_draws) (map Num charge_action) zero_noise))) > 1000)"
proof -
  have r: "run (construct example_draws) [] = Inr (construct example_draws)" by simp
  have s: "step (construct example_draws) (map Num charge_action) zero_noise
           = Inr (projr (step (construct example_draws) (map Num charge_action) zero_noise))"
    by (rule example_step) (simp add: charge_action_def)
  have a: "map Num charge_action ! 2 \<noteq> NaN \<and> map Num charge_action ! 4 \<noteq> NaN"
    by (simp add: charge_action_def)
  have c: "grid_frequency (state (construct example_draws)) \<noteq> NaN"
    by (simp add: construct_fields)
  obtain t' obs reward dn where
    p: "projr (step (construct example_draws) (map Num charge_action) zero_noise)
        = (t', obs, reward, dn)"
    by (metis prod_cases4)
  from frequency_exit_unreachable[OF r, of "map Num charge_action" zero_noise t' obs reward dn]
    s[unfolded p] a c
  have "fl_le (fl_map (\<lambda>f. \<bar>f - 50\<bar>) (grid_frequency (state (construct example_draws)))) 1
      \<and> fl_le (fl_map (\<lambda>f. \<bar>f - 50\<bar>) (grid_frequency (state t'))) 1
      \<and> (dn \<longleftrightarrow> stability_score (state t') < 0.5 \<or> battery_health (state t') < 0.5
                \<or> time_step t' > 1000)"
    by blast
  with r s a show ?thesis
    unfolding p fst_conv snd_conv by blast
qed

text \<open>
  A state the code reaches in one \<^verbatim>\<open>step\<close> from the twin of the example draws, with an
  action whose curtailment component is NaN: its frequency is NaN, which is not within 1 Hz
  of 50, and not more than 2 Hz away either.
\<close>

theorem frequency_nan_counterexample:
  "length nan_curtailment_action = 5
   \<and> run (construct example_draws) [Step nan_curtailment_action zero_noise]
       = Inr (projr (run (construct example_draws) [Step nan_curtailment_action zero_noise]))
   \<and> grid_frequency
         (state (projr (run (construct example_draws) [Step nan_curtailment_action zero_noise])))
       = NaN
   \<and> \<not> fl_le (fl_map (\<lambda>f. \<bar>f - 50\<bar>)
         (grid_frequency
            (state (projr (run (construct example_draws) [Step nan_curtailment_action zero_noise])))))
         1"
proof -
  have s: "step (construct example_draws) nan_curtailment_action zero_noise
           = Inr (projr (step (construct example_draws) nan_curtailment_action zero_noise))"
    by (rule example_step) (simp add: nan_curtailment_action_def)
  have n: "nan_curtailment_action ! 4 = NaN" by (simp add: nan_curtailment_action_def)
  from step_fields(6)[OF s] n
  have f: "grid_frequency
         (state (fst (projr (step (construct example_draws) nan_curtailment_action zero_noise))))
       = NaN"
    by simp
  have r: "run (construct example_draws) [Step nan_curtailment_action zero_noise]
       = Inr (fst (projr (step (construct example_draws) nan_curtailment_action zero_noise)))"
    by (subst run.simps, subst exec.simps, subst s) simp
  show ?thesis unfolding r using f by (simp add: nan_curtailment_action_def)
qed

text \<open>
  C5. On every twin the code can have built, a \<^verbatim>\<open>step\<close> multiplies the battery health by
  0.9999 and the \<^verbatim>\<open>battery_degradation\<close> event multiplies it by 0.8; no \<^verbatim>\<open>inject_event\<close>
  raises it, and after any further sequence of \<^verbatim>\<open>step\<close> and \<^verbatim>\<open>inject_event\<close> calls without
  a \<^verbatim>\<open>reset\<close> it is at most what it was.
\<close>

theorem battery_health_never_rises:
  assumes "run (construct d) cs = Inr t"
  shows "(step t action z = Inr (t', obs, reward, done) \<longrightarrow>
            battery_health (state t') = battery_health (state t) * 0.9999
            \<and> battery_health (state t') \<le> battery_health (state t))
       \<and> battery_health (state (inject_event t ''battery_degradation''))
           = battery_health (state t) * 0.8
       \<and> battery_health (state (inject_event t event_type)) \<le> battery_health (state t)
       \<and> (\<not> has_reset cs' \<and> run t cs' = Inr t'' \<longrightarrow>
            battery_health (state t'') \<le> battery_health (state t))"
proof -
  have inv: "twin_inv t" using assms by (rule reachable_inv)
  then have pos: "0 < battery_health (state t)" by (simp add: twin_inv_def)
  have a: "battery_health (state t') = battery_health (state t) * 0.9999
            \<and> battery_health (state t') \<le> battery_health (state t)"
    if s: "step t action z = Inr (t', obs, reward, done)"
    using step_fields(1)[OF s] pos by simp
  have b: "battery_health (state (inject_event t ''battery_degradation''))
           = battery_health (state t) * 0.8"
    by (simp add: inject_event_fields)
  have c: "battery_health (state (inject_event t event_type)) \<le> battery_health (state t)"
    using pos by (simp add: inject_event_fields)
  have e: "battery_health (state t'') \<le> battery_health (state t)"
    if "\<not> has_reset cs'" "run t cs' = Inr t''"
    using health_run[OF inv that] .
  from a b c e show ?thesis by blast
qed

theorem battery_health_never_rises_witness:
  "run (construct example_draws) [] = Inr (construct example_draws)
   \<and> step (construct example_draws) (map Num charge_action) zero_noise
       = Inr (projr (step (construct example_draws) (map Num charge_action) zero_noise))
   \<and> \<not> has_reset [InjectEvent ''battery_degradation'']
   \<and> run (construct example_draws) [InjectEvent ''battery_degradation'']
       = Inr (inject_event (construct example_draws) ''battery_degradation'')
   \<and> battery_health (state (fst (projr (step (construct example_draws) (map Num charge_action) zero_noise))))
       = 0.9999
   \<and> battery_health (state (inject_event (construct example_draws) ''battery_degradation''))
       = 0.8"
proof -
  have r: "run (construct example_draws) [] = Inr (construct example_draws)" by simp
  have s: "step (construct example_draws) (map Num charge_action) zero_noise
           = Inr (projr (step (construct example_draws) (map Num charge_action) zero_noise))"
    by (rule example_step) (simp add: charge_action_def)
  have n: "\<not> has_reset [InjectEvent ''battery_degradation'']" by simp
  have i: "run (construct example_draws) [InjectEvent ''battery_degradation'']
       = Inr (inject_event (construct example_draws) ''battery_degradation'')" by simp
  obtain t' obs reward dn where
    p: "projr (step (construct example_draws) (map Num charge_action) zero_noise)
        = (t', obs, reward, dn)"
    by (metis prod_cases4)
  from battery_health_never_rises[OF r, of "map Num charge_action" zero_noise t' obs reward dn
      "''battery_degradation''" "[InjectEvent ''battery_degradation'']"
      "inject_event (construct example_draws) ''battery_degradation''"]
    r s n i show ?thesis
    by (simp add: p construct_fields)
qed

text \<open>
  C6. \<^verbatim>\<open>get_state_vector\<close> returns 13 components. When one of the three forecast arguments
  is omitted, the last three components are the first three (the current solar, wind and
  load values, normalised); when all three are given, the last three are the forecasts
  divided by the solar capacity, the wind capacity and 1000.
\<close>

theorem get_state_vector_forecast:
  "length (get_state_vector t forecast_solar forecast_wind forecast_load) = 13
   \<and> (forecast_solar = None \<or> forecast_wind = None \<or> forecast_load = None \<longrightarrow>
        drop 10 (get_state_vector t forecast_solar forecast_wind forecast_load)
          = take 3 (get_state_vector t forecast_solar forecast_wind forecast_load))
   \<and> (forecast_solar = Some fs \<and> forecast_wind = Some fw \<and> forecast_load = Some fl \<longrightarrow>
        drop 10 (get_state_vector t forecast_solar forecast_wind forecast_load)
          = [fl_map (\<lambda>x. x / solar_capacity) fs, fl_map (\<lambda>x. x / wind_capacity) fw,
             fl_map (\<lambda>x. x / 1000) fl])
   \<and> take 3 (get_state_vector t forecast_solar forecast_wind forecast_load)
        = [Num (solar_generation (state t) / solar_capacity),
           Num (wind_generation (state t) / wind_capacity),
           Num (load_demand (state t) / 1000)]"
  by (auto simp: get_state_vector_def Let_def split: option.splits)

theorem get_state_vector_forecast_witness:
  "(None = (None :: pyfloat option) \<or> Some (Num 2) = None \<or> Some (Num 3) = None)
   \<and> drop 10 (get_state_vector (construct example_draws) None (Some (Num 2)) (Some (Num 3)))
       = take 3 (get_state_vector (construct example_draws) None (Some (Num 2)) (Some (Num 3)))
   \<and> drop 10 (get_state_vector (construct example_draws)
                (Some (Num 500)) (Some (Num 300)) (Some (Num 1000)))
       = [Num 1, Num 1, Num 1]"
  using get_state_vector_forecast [of "construct example_draws" None "Some (Num 2)" "Some (Num 3)"
      NaN NaN NaN]
    get_state_vector_forecast [of "construct example_draws" "Some (Num 500)" "Some (Num 300)"
      "Some (Num 1000)" "Num 500" "Num 300" "Num 1000"]
  by (simp add: solar_capacity_def wind_capacity_def)

section \<open>A concrete step with a surplus\<close>

lemma exp_neg_le: "0 \<le> a \<Longrightarrow> exp (- a) \<le> 1 / (1 + a)" for a :: real
proof -
  assume a: "0 \<le> a"
  have "1 + a \<le> exp a" by (rule exp_ge_add_one_self)
  then have "1 / exp a \<le> 1 / (1 + a)" using a by (intro divide_left_mono) simp_all
  then show ?thesis by (simp add: exp_minus inverse_eq_divide)
qed

lemma advance_from_noon:
  assumes "time_of_day (state t) = 12"
  shows "time_of_day (state (advance t z)) = 12.1"
  using assms
  by (simp add: state_advance more_fields update_wind_generation_fields
      update_solar_generation_fields update_weather_fields fmod_def dt_def)

lemma load_demand_advance:
  "load_demand (state (advance t z)) =
     800 * clip ((0.4 + 0.3 * exp (- ((time_of_day (state (advance t z)) - 8)\<^sup>2) / 2)
                      + 0.5 * exp (- ((time_of_day (state (advance t z)) - 20)\<^sup>2) / 4))
                 * (if day_of_year (state t) mod 7 \<in> {0, 6} then 0.9 else 1)
                 * (1 + load_noise z)) 0.3 1"
proof -
  have "load_demand (update_load_demand s zl) =
     800 * clip ((0.4 + 0.3 * exp (- ((time_of_day (update_load_demand s zl) - 8)\<^sup>2) / 2)
                      + 0.5 * exp (- ((time_of_day (update_load_demand s zl) - 20)\<^sup>2) / 4))
                 * (if day_of_year s mod 7 \<in> {0, 6} then 0.9 else 1)
                 * (1 + zl)) 0.3 1" for s zl
    unfolding more_fields by (simp add: update_load_demand_def Let_def)
  then show ?thesis
    unfolding state_advance
    by (simp add: update_wind_generation_fields update_solar_generation_fields
        update_weather_fields)
qed

lemma wind_generation_advance:
  "wind_generation (state (advance t z)) =
     wind_capacity * (let v = clip (wind_speed (state t) + wind_noise z) 0 25
                      in if v < 3 then 0 else if v < 12 then (v - 3) / 9
                         else if v < 25 then 1 else 0)"
  unfolding state_advance
  by (simp add: update_load_demand_fields update_wind_generation_def Let_def
      update_solar_generation_fields update_weather_fields)

lemma example_step_surplus:
  "load_demand (state (advance (construct example_draws) mild_noise))
     < solar_generation (state (advance (construct example_draws) mild_noise))
       + wind_generation (state (advance (construct example_draws) mild_noise))"
proof -
  let ?t = "advance (construct example_draws) mild_noise"
  have tod: "time_of_day (state ?t) = 12.1"
    by (rule advance_from_noon) (simp add: construct_fields)
  have e1: "exp (- ((12.1 - 8 :: real)\<^sup>2) / 2) \<le> 1 / (1 + 8.405)"
    using exp_neg_le[of "8.405"] by (simp add: power2_eq_square)
  have e2: "exp (- ((12.1 - 20 :: real)\<^sup>2) / 4) \<le> 1 / (1 + 15.6025)"
    using exp_neg_le[of "15.6025"] by (simp add: power2_eq_square)
  define lf where "lf = (0.4 + 0.3 * exp (- ((12.1 - 8 :: real)\<^sup>2) / 2)
                      + 0.5 * exp (- ((12.1 - 20 :: real)\<^sup>2) / 4)) * 1 * (1 + (- 0.2))"
  have "lf \<le> (0.4 + 0.3 * (1 / (1 + 8.405)) + 0.5 * (1 / (1 + 15.6025))) * 0.8"
    unfolding lf_def using e1 e2 by simp
  also have "\<dots> < 0.37" by simp
  finally have lf: "lf < 0.37" .
  have "load_demand (state ?t) = 800 * clip lf 0.3 1"
    unfolding load_demand_advance tod lf_def
    by (simp add: construct_fields example_draws_def mild_noise_def)
  also have "\<dots> < 300" using lf by (simp add: clip_def)
  finally have l: "load_demand (state ?t) < 300" .
  have w: "wind_generation (state ?t) = 300"
    unfolding wind_generation_advance
    by (simp add: construct_fields example_draws_def mild_noise_def clip_def wind_capacity_def)
  have s: "0 \<le> solar_generation (state ?t)"
    by (rule advance_generation) (simp add: mild_noise_def)
  from l w s show ?thesis by simp
qed

theorem step_battery_dispatch_witness:
  "step (construct example_draws) (map Num charge_action) mild_noise
     = Inr (projr (step (construct example_draws) (map Num charge_action) mild_noise))
   \<and> battery_soc (state (construct example_draws)) = 0.5
   \<and> 0 < battery_capacity (state (construct example_draws))
   \<and> charge_action = [1, 0, 0, 0, 0]
   \<and> spec_curtailed_renewable
        (state (fst (projr (step (construct example_draws) (map Num charge_action) mild_noise)))) charge_action
       > spec_shifted_load
        (state (fst (projr (step (construct example_draws) (map Num charge_action) mild_noise)))) charge_action
   \<and> battery_soc (state (fst (projr (step (construct example_draws) (map Num charge_action) mild_noise))))
       > battery_soc (state (construct example_draws))
   \<and> battery_charge_rate
        (state (fst (projr (step (construct example_draws) (map Num charge_action) mild_noise)))) < 0"
proof -
  have d: "step (construct example_draws) (map Num charge_action) mild_noise
             = Inr (dispatch (advance (construct example_draws) mild_noise) (map Num charge_action))"
    by (rule step_no_events) (simp_all add: construct_fields charge_action_def)
  have s: "step (construct example_draws) (map Num charge_action) mild_noise
           = Inr (projr (step (construct example_draws) (map Num charge_action) mild_noise))"
    using d by (rule Inr_projr)
  obtain t' obs reward dn where
    p: "projr (step (construct example_draws) (map Num charge_action) mild_noise) = (t', obs, reward, dn)"
    by (metis prod_cases4)
  have t': "t' = fst (dispatch (advance (construct example_draws) mild_noise) (map Num charge_action))"
    using p d by simp
  have soc: "battery_soc (state (construct example_draws)) = 0.5"
    and cap: "0 < battery_capacity (state (construct example_draws))"
    by (simp_all add: construct_fields example_draws_def)
  have a: "charge_action = [1, 0, 0, 0, 0]" by (simp add: charge_action_def)
  have sur: "spec_curtailed_renewable (state t') charge_action
             > spec_shifted_load (state t') charge_action"
    using example_step_surplus
    by (simp add: t' spec_curtailed_renewable_def spec_shifted_load_def dispatch_fields
        charge_action_def clip_def)
  have "battery_soc (state t') > battery_soc (state (construct example_draws))
        \<and> battery_charge_rate (state t') < 0"
    using step_battery_dispatch[OF s[unfolded p]] soc cap a sur by blast
  with s[unfolded p] soc cap a sur show ?thesis
    unfolding p fst_conv by blast
qed

section \<open>The battery under a NaN action\<close>

text \<open>
  The battery dispatch is stated above for action vectors of numbers. With NaN in the action the
  code does the following. A NaN charge or discharge command fails the comparison with 0.5,
  so it acts as the command 0. A NaN load-shift or curtailment command makes the curtailed
  renewable power or the shifted load NaN, and \<^verbatim>\<open>max(0, \<dots>)\<close> makes the surplus and the
  deficit 0: whatever the two battery commands are, the battery power is 0 and the state of
  charge is the old one, clamped.
\<close>

lemma battery_power_of_nan_command:
  "battery_power_of s NaN d x y = battery_power_of s (Num 0) d x y"
  "battery_power_of s c NaN x y = battery_power_of s c (Num 0) x y"
  by (simp_all add: battery_power_of_def)

lemma battery_power_of_nan_balance:
  assumes "x = NaN \<or> y = NaN" and "0 \<le> battery_capacity s"
  shows "battery_power_of s (np_clip c 0 1) (np_clip d 0 1) x y = 0"
proof -
  have m: "max0 (fl_sub x y) = 0" "max0 (fl_sub y x) = 0"
    using assms(1) by (cases x; cases y; simp)+
  have c: "0 \<le> num (np_clip c 0 1) * battery_max_charge_rate"
    using clip_bounds[of 0 1] by (cases c) (simp_all add: battery_max_charge_rate_def)
  have d: "0 \<le> num (np_clip d 0 1) * battery_max_charge_rate"
    using clip_bounds[of 0 1] by (cases d) (simp_all add: battery_max_charge_rate_def)
  have h: "0 \<le> (0.95 - battery_soc s) * battery_capacity s / dt" if "battery_soc s < 0.95"
    using that assms(2) by (simp add: dt_def)
  have r: "0 \<le> (battery_soc s - 0.1) * battery_capacity s / dt" if "battery_soc s > 0.1"
    using that assms(2) by (simp add: dt_def)
  show ?thesis
    unfolding battery_power_of_def Let_def m
    using c d h r by (auto simp: min_def)
qed

lemma step_battery_dispatch_nan:
  assumes "step t action z = Inr (t', obs, reward, done)"
    and "action ! 2 = NaN \<or> action ! 4 = NaN"
    and "0 \<le> battery_capacity (state t)"
  shows "battery_charge_rate (state t') = 0"
    and "battery_soc (state t') = clip (battery_soc (state t)) 0 1"
proof -
  from assms(1) obtain t1 where pe: "process_events (advance t z) = Inr t1"
    and r: "(t', obs, reward, done) = dispatch t1 action"
    by (rule step_cases)
  have t': "t' = fst (dispatch t1 action)" using r by (metis fst_conv)
  note k = process_events_keeps[OF pe]
  have soc1: "battery_soc (state t1) = battery_soc (state t)"
    and cap1: "battery_capacity (state t1) = battery_capacity (state t)"
    using k by (simp_all add: advance_keeps)
  have n: "fl_map f (np_clip (action ! 4) 0 1) = NaN \<or> fl_map g (np_clip (action ! 2) 0 1) = NaN"
    for f g
    using assms(2) by (auto simp: fl_NaN_iff)
  show p: "battery_charge_rate (state t') = 0"
    unfolding t' dispatch_charge_rate
    by (rule battery_power_of_nan_balance[OF n]) (simp add: cap1 assms(3))
  show "battery_soc (state t') = clip (battery_soc (state t)) 0 1"
    using p unfolding t' by (subst dispatch_soc) (simp add: soc1)
qed

section \<open>A quiet episode\<close>

lemma advance_weather:
  "wind_speed (state (advance t z)) = clip (wind_speed (state t) + wind_noise z) 0 25"
  "0 \<le> cloud_cover (state (advance t z))"
  "cloud_cover (state (advance t z)) \<le> 1"
  unfolding state_advance
  using clip_bounds[of 0 1 "cloud_cover (state t) + cloud_noise z - 0.01"]
  by (simp_all add: update_load_demand_fields update_wind_generation_fields
      update_solar_generation_fields update_weather_fields)

lemma advance_solar_le: "solar_generation (state (advance t z)) \<le> 600"
proof -
  let ?w = "update_weather ((state t)\<lparr>time_of_day := fmod (time_of_day (state t) + dt) 24\<rparr>)
          (cloud_noise z) (wind_noise z) (temp_noise z)"
  have cc: "0 \<le> cloud_cover ?w" "cloud_cover ?w \<le> 1"
    using clip_bounds[of 0 1] by (simp_all add: update_weather_fields)
  from solar_generation_le[OF cc] show ?thesis
    by (simp add: state_advance update_load_demand_fields update_wind_generation_fields)
qed

lemma settle_hold:
  fixes t :: MicrogridDigitalTwin
  defines "b \<equiv> load_demand (state t) * (1 - 0 * 0.2)
                 - (solar_generation (state t) + wind_generation (state t)) * (1 - 0.25 * 0.5) - 0"
  shows "battery_charge_rate (state (settle t hold_action)) = 0"
    and "grid_import (state (settle t hold_action)) = Num (max 0 b)"
    and "grid_frequency (state (settle t hold_action)) = Num (clip (50 + - b / 1000) 49 51)"
    and "grid_voltage (state (settle t hold_action)) = Num (clip (1 + - \<bar>b\<bar> / 2000) 0.9 1.1)"
proof -
  have c: "np_clip (Num 0) 0 1 = Num 0" "np_clip (Num 0.25) 0 1 = Num 0.25"
    by (simp_all add: clip_def)
  have n: "hold_action ! 0 = Num 0" "hold_action ! 1 = Num 0" "hold_action ! 2 = Num 0"
    "hold_action ! 3 = Num 0" "hold_action ! 4 = Num 0.25"
    by (simp_all add: hold_action_def)
  have p: "battery_power_of s (Num 0) (Num 0) x y = 0" for s x y
    by (simp add: battery_power_of_def)
  show "battery_charge_rate (state (settle t hold_action)) = 0"
    and "grid_import (state (settle t hold_action)) = Num (max 0 b)"
    and "grid_frequency (state (settle t hold_action)) = Num (clip (50 + - b / 1000) 49 51)"
    and "grid_voltage (state (settle t hold_action)) = Num (clip (1 + - \<bar>b\<bar> / 2000) 0.9 1.1)"
    unfolding settle_def Let_def n c p update_grid_dynamics_def b_def
      frequency_nominal_def voltage_nominal_def
    by (simp_all add: field_simps)
qed

lemma quiet_score:
  fixes S L h :: real
  assumes S: "0 \<le> S" "S \<le> 600" and L: "240 \<le> L" "L \<le> 800" and h: "0.9 \<le> h"
  defines "b \<equiv> L - (S + 300) * 0.875"
  shows "0.5 \<le> 0.3 * max 0 (1 - \<bar>clip (50 + - b / 1000) 49 51 - 50\<bar>)
              + 0.3 * max 0 (1 - \<bar>clip (1 + - \<bar>b\<bar> / 2000) 0.9 1.1 - 1\<bar> / 0.1)
              + 0.2 * h
              + 0.2 * min ((S + 300 + \<bar>0\<bar> + max 0 (max 0 b)) / max L 1) 1"
proof -
  have b: "- 547.5 \<le> b" "b \<le> 537.5" using S L by (simp_all add: b_def field_simps)
  have f: "clip (50 + - b / 1000) 49 51 = 50 + - b / 1000"
    using b unfolding clip_def by (simp add: min_def max_def)
  have "\<bar>b\<bar> \<le> 547.5" using b by (simp add: abs_le_iff)
  then have "0.4525 \<le> 1 - \<bar>50 + - b / 1000 - 50\<bar>" by simp
  then have fs: "0.4525 \<le> max 0 (1 - \<bar>clip (50 + - b / 1000) 49 51 - 50\<bar>)"
    unfolding f by linarith
  have vs: "0 \<le> max 0 (1 - \<bar>clip (1 + - \<bar>b\<bar> / 2000) 0.9 1.1 - 1\<bar> / 0.1)" by simp
  have "b \<le> max 0 (max 0 b)" by simp
  moreover have "L \<le> S + 300 + b" using S L by (simp add: b_def field_simps)
  ultimately have "L \<le> S + 300 + \<bar>0\<bar> + max 0 (max 0 b)" by linarith
  moreover have m: "max L 1 = L" using L by simp
  ultimately have "1 \<le> (S + 300 + \<bar>0\<bar> + max 0 (max 0 b)) / max L 1"
    using L by (simp add: le_divide_eq)
  then have r: "min ((S + 300 + \<bar>0\<bar> + max 0 (max 0 b)) / max L 1) 1 = 1" by simp
  define F where "F = max 0 (1 - \<bar>clip (50 + - b / 1000) 49 51 - 50\<bar>)"
  define V where "V = max 0 (1 - \<bar>clip (1 + - \<bar>b\<bar> / 2000) 0.9 1.1 - 1\<bar> / 0.1)"
  have "0.4525 \<le> F" "0 \<le> V" using fs vs by (simp_all only: F_def V_def)
  then have "0.5 \<le> 0.3 * F + 0.3 * V + 0.2 * h + 0.2 * 1" using h by simp
  then show ?thesis by (simp only: r F_def V_def)
qed

lemma quiet_step:
  assumes w: "wind_speed (state t) = 13" and e: "active_events t = []"
    and h: "0.9 \<le> battery_health (state t) * 0.9999"
    and ts: "time_step t < 1000"
  shows "\<exists>t' obs reward. step t hold_action zero_noise = Inr (t', obs, reward, False)
           \<and> wind_speed (state t') = 13 \<and> active_events t' = []
           \<and> battery_health (state t') = battery_health (state t) * 0.9999
           \<and> time_step t' = time_step t + 1"
proof -
  let ?t1 = "advance t zero_noise"
  let ?r = "dispatch ?t1 hold_action"
  have s: "step t hold_action zero_noise = Inr ?r"
    by (rule step_no_events) (simp_all add: e hold_action_def)
  have w1: "wind_speed (state ?t1) = 13"
    by (simp add: advance_weather w zero_noise_def clip_def)
  have wg: "wind_generation (state ?t1) = 300"
    unfolding wind_generation_advance
    by (simp add: w zero_noise_def clip_def wind_capacity_def)
  have z: "temp_noise zero_noise \<le> 240" by (simp add: zero_noise_def)
  note g = advance_generation[OF z, of t] advance_solar_le[of t zero_noise]
  define b where "b = load_demand (state ?t1) * (1 - 0 * 0.2)
                 - (solar_generation (state ?t1) + wind_generation (state ?t1)) * (1 - 0.25 * 0.5) - 0"
  note sh = settle_hold[of ?t1, folded b_def]
  have br: "balance_ratio (state (settle ?t1 hold_action)) =
     min ((solar_generation (state ?t1) + 300 + \<bar>0\<bar> + max 0 (max 0 b))
          / max (load_demand (state ?t1)) 1) 1"
    by (simp add: balance_ratio_def Let_def sh settle_fields wg)
  have sc: "stability_score (state (fst ?r)) =
      0.3 * max 0 (1 - \<bar>clip (50 + - b / 1000) 49 51 - 50\<bar>)
      + 0.3 * max 0 (1 - \<bar>clip (1 + - \<bar>b\<bar> / 2000) 0.9 1.1 - 1\<bar> / 0.1)
      + 0.2 * (battery_health (state t) * 0.9999)
      + 0.2 * min ((solar_generation (state ?t1) + 300 + \<bar>0\<bar> + max 0 (max 0 b))
          / max (load_demand (state ?t1)) 1) 1"
    by (simp add: fst_dispatch calculate_energy_cost_fields
        stability_score_update sh br settle_fields advance_keeps)
  have b': "b = load_demand (state ?t1) - (solar_generation (state ?t1) + 300) * 0.875"
    unfolding b_def wg by simp
  have st: "0.5 \<le> stability_score (state (fst ?r))"
    unfolding sc b'
    by (rule quiet_score) (use g h in simp_all)
  have hl: "battery_health (state (fst ?r)) = battery_health (state t) * 0.9999"
    and tm: "time_step (fst ?r) = time_step t + 1"
    and dn: "snd (snd (snd ?r)) = check_termination (fst ?r)"
    using step_fields(1,3,8)[OF s] by simp_all
  have "\<not> check_termination (fst ?r)"
    unfolding check_termination_no_frequency(2)[OF step_fields(4)[OF s]]
    using st hl h tm ts by simp
  with dn have d: "snd (snd (snd ?r)) = False" by simp
  obtain t' obs reward dn' where r: "?r = (t', obs, reward, dn')" by (metis prod_cases4)
  with d have "dn' = False" by simp
  with r s hl tm show ?thesis
    by (auto simp: dispatch_fields w1 e advance_keeps dest!: arg_cong[where f = fst])
qed

lemma quiet_run:
  assumes "wind_speed (state t) = 13" and "active_events t = []"
    and "battery_health (state t) \<le> 1"
    and "0.9 \<le> battery_health (state t) * 0.9999 ^ n"
    and "time_step t + int n \<le> 1000"
  shows "episode t (replicate n (hold_action, zero_noise)) = Inr (replicate n False)
       \<and> (\<exists>t'. run t (replicate n (Step hold_action zero_noise)) = Inr t'
                \<and> active_events t' = [] \<and> time_step t' = time_step t + int n)"
  using assms
proof (induction n arbitrary: t)
  case 0
  then show ?case by simp
next
  case (Suc n)
  define h where "h = battery_health (state t) * 0.9999"
  have hn: "0.9 \<le> h * 0.9999 ^ n" using Suc.prems(4) by (simp add: h_def mult.assoc)
  have p: "(0::real) < 0.9999 ^ n" "(0.9999::real) ^ n \<le> 1"
    by (simp_all add: power_le_one)
  have hpos: "0 < h"
  proof (rule ccontr)
    assume "\<not> 0 < h"
    then have "h * 0.9999 ^ n \<le> 0" using p(1) by (simp add: mult_le_0_iff)
    with hn show False by simp
  qed
  have "h * 0.9999 ^ n \<le> h * 1" using p(2) hpos by (intro mult_left_mono) simp_all
  with hn have h9: "0.9 \<le> h" by simp
  have ts: "time_step t < 1000" using Suc.prems(5) by simp
  from quiet_step[OF Suc.prems(1,2) h9[unfolded h_def] ts]
  obtain t1 obs reward where s: "step t hold_action zero_noise = Inr (t1, obs, reward, False)"
    and w1: "wind_speed (state t1) = 13" and e1: "active_events t1 = []"
    and h1: "battery_health (state t1) = h" and ts1: "time_step t1 = time_step t + 1"
    unfolding h_def by blast
  have le1: "battery_health (state t1) \<le> 1" using h1 Suc.prems(3) hpos by (simp add: h_def)
  have hn1: "0.9 \<le> battery_health (state t1) * 0.9999 ^ n" using hn h1 by simp
  have tn1: "time_step t1 + int n \<le> 1000" using ts1 Suc.prems(5) by simp
  from Suc.IH[OF w1 e1 le1 hn1 tn1]
  obtain t' where ep: "episode t1 (replicate n (hold_action, zero_noise)) = Inr (replicate n False)"
    and r: "run t1 (replicate n (Step hold_action zero_noise)) = Inr t'"
    and e': "active_events t' = []" and ts': "time_step t' = time_step t1 + int n"
    by blast
  have "episode t (replicate (Suc n) (hold_action, zero_noise)) = Inr (replicate (Suc n) False)"
    using s ep by simp
  moreover have "run t (replicate (Suc n) (Step hold_action zero_noise)) = Inr t'"
    using s r by simp
  moreover have "time_step t' = time_step t + int (Suc n)" using ts' ts1 by simp
  ultimately show ?case using e' by blast
qed

lemma health_after_1000: "(0.9::real) \<le> 0.9999 ^ 1000"
  using Bernoulli_inequality[of "- 0.0001 :: real" 1000] by simp

lemma quiet_episode:
  "episode (construct example_draws) (replicate 1000 (hold_action, zero_noise))
     = Inr (replicate 1000 False)
   \<and> (\<exists>t'. run (construct example_draws) (replicate 1000 (Step hold_action zero_noise)) = Inr t'
            \<and> active_events t' = [] \<and> time_step t' = 1000)"
proof -
  have "episode (construct example_draws) (replicate 1000 (hold_action, zero_noise))
          = Inr (replicate 1000 False)
       \<and> (\<exists>t'. run (construct example_draws) (replicate 1000 (Step hold_action zero_noise)) = Inr t'
                \<and> active_events t' = []
                \<and> time_step t' = time_step (construct example_draws) + int 1000)"
    by (rule quiet_run) (use health_after_1000 in \<open>simp_all add: construct_fields example_draws_def\<close>)
  then show ?thesis by (simp add: construct_fields)
qed

lemma steps_since_reset_replicate:
  "steps_since_reset n (replicate k (Step a z)) = n + int k"
  by (induction k arbitrary: n) simp_all

text \<open>
  C2, as the code has it. \<^verbatim>\<open>step\<close> increments the counter before \<^verbatim>\<open>_check_termination\<close>
  tests \<^verbatim>\<open>time_step > 1000\<close>. So the \<^verbatim>\<open>done\<close> flag of a \<^verbatim>\<open>step\<close> is true exactly when the
  stability score is below 0.5, the battery health is below 0.5, or at least 1000 steps
  were made before it since construction or the last \<^verbatim>\<open>reset\<close>: the 1001st call returns
  \<^verbatim>\<open>done = True\<close> whatever the actions, and an earlier call does so only through the two
  early exits.
\<close>

theorem done_by_step_1001:
  assumes "run (construct d) cs = Inr t"
    and "step t action z = Inr (t', obs, reward, done)"
  shows "(done \<longleftrightarrow> stability_score (state t') < 0.5 \<or> battery_health (state t') < 0.5
                  \<or> 1000 \<le> steps_since_reset 0 cs)
       \<and> (steps_since_reset 0 cs = 1000 \<longrightarrow> done)"
proof -
  have "time_step t = steps_since_reset 0 cs"
    using time_step_run[OF assms(1)] by (simp add: construct_fields)
  with step_fields(3)[OF assms(2)] have ts: "time_step t' = steps_since_reset 0 cs + 1"
    by simp
  note sf = step_fields[OF assms(2), unfolded fst_conv snd_conv]
  have "done = check_termination t'" by (rule sf(8))
  then have "done \<longleftrightarrow> stability_score (state t') < 0.5 \<or> battery_health (state t') < 0.5
                  \<or> 1000 \<le> steps_since_reset 0 cs"
    unfolding check_termination_no_frequency(2)[OF sf(4)] using ts by auto
  then show ?thesis by simp
qed

theorem done_by_step_1001_witness:
  "run (construct example_draws) (replicate 1000 (Step hold_action zero_noise))
     = Inr (projr (run (construct example_draws) (replicate 1000 (Step hold_action zero_noise))))
   \<and> step (projr (run (construct example_draws) (replicate 1000 (Step hold_action zero_noise))))
        hold_action zero_noise
     = Inr (projr (step (projr (run (construct example_draws)
                                  (replicate 1000 (Step hold_action zero_noise))))
                        hold_action zero_noise))
   \<and> steps_since_reset 0 (replicate 1000 (Step hold_action zero_noise)) = 1000
   \<and> snd (snd (snd (projr (step (projr (run (construct example_draws)
                                          (replicate 1000 (Step hold_action zero_noise))))
                                hold_action zero_noise))))"
proof -
  let ?cs = "replicate 1000 (Step hold_action zero_noise)"
  from quiet_episode obtain t where r: "run (construct example_draws) ?cs = Inr t"
    and e: "active_events t = []" by blast
  have s: "step t hold_action zero_noise = Inr (dispatch (advance t zero_noise) hold_action)"
    using e by (rule step_no_events) (simp add: hold_action_def)
  obtain t' obs reward dn where
    p: "dispatch (advance t zero_noise) hold_action = (t', obs, reward, dn)"
    by (metis prod_cases4)
  have n: "steps_since_reset 0 ?cs = 1000" by (simp add: steps_since_reset_replicate)
  from done_by_step_1001[OF r s[unfolded p]] n have "dn" by blast
  with r s n show ?thesis by (simp add: p)
qed

text \<open>
  The claim as stated, with the horizon at the 1000th call, fails: a twin constructed with
  wind at 13 m/s, held with a quarter of curtailment and with all draws at 0, returns
  \<^verbatim>\<open>done = False\<close> from each of its first 1000 steps.
\<close>

theorem done_by_step_1000_counterexample:
  "episode (construct example_draws) (replicate 1000 (hold_action, zero_noise))
     = Inr (replicate 1000 False)"
  using quiet_episode by blast

section \<open>Events\<close>

lemma step_eval:
  assumes "5 \<le> length a"
    and "tick_timers (active_events t) (event_timers t) [] = (tm, ex)"
  shows "step t a z =
           (case expire_events ex ((advance t z)\<lparr>event_timers := tm\<rparr>) of
              Inl e \<Rightarrow> Inl e | Inr t1 \<Rightarrow> Inr (dispatch t1 a))"
  using assms by (simp add: step_def process_events_def advance_keeps)

lemma run_ticking:
  assumes "5 \<le> length a"
    and "tick_timers (active_events t) (event_timers t) [] = (tm, [])"
  shows "\<exists>t1. run t (Step a z # cs) = run t1 cs
              \<and> active_events t1 = active_events t \<and> event_timers t1 = tm
              \<and> cloud_cover (state t1) = clip (cloud_cover (state t) + cloud_noise z - 0.01) 0 1
              \<and> wind_speed (state t1) = clip (wind_speed (state t) + wind_noise z) 0 25"
proof -
  let ?t1 = "fst (dispatch ((advance t z)\<lparr>event_timers := tm\<rparr>) a)"
  have "step t a z = Inr (dispatch ((advance t z)\<lparr>event_timers := tm\<rparr>) a)"
    using step_eval[OF assms] by simp
  then have "run t (Step a z # cs) = run ?t1 cs" by simp
  moreover have "active_events ?t1 = active_events t" "event_timers ?t1 = tm"
    by (simp_all add: dispatch_fields advance_keeps)
  moreover have "cloud_cover (state ?t1) = clip (cloud_cover (state t) + cloud_noise z - 0.01) 0 1"
    "wind_speed (state ?t1) = clip (wind_speed (state t) + wind_noise z) 0 25"
    using advance_weather(1)[of t z]
    by (simp_all add: dispatch_fields state_advance update_load_demand_fields
        update_wind_generation_fields update_solar_generation_fields update_weather_fields)
  ultimately show ?thesis by blast
qed

lemma run_expiring:
  assumes "5 \<le> length a"
    and "tick_timers (active_events t) (event_timers t) [] = (tm, ex)"
    and "expire_events ex ((advance t z)\<lparr>event_timers := tm\<rparr>) = Inr t1"
  shows "run t (Step a z # cs) = run (fst (dispatch t1 a)) cs"
  using step_eval[OF assms(1,2), of z] assms(3) by simp

lemma run_failing:
  assumes "5 \<le> length a"
    and "tick_timers (active_events t) (event_timers t) [] = (tm, ex)"
    and "expire_events ex ((advance t z)\<lparr>event_timers := tm\<rparr>) = Inl e"
  shows "run t (Step a z # cs) = Inl e"
  using step_eval[OF assms(1,2), of z] assms(3) by simp


lemma inject_event_effect:
  "cloud_cover (state (inject_event t ''cloud_cover'')) = 0.9"
  "wind_speed (state (inject_event t ''wind_drop'')) = 1"
  "load_demand (state (inject_event t ''peak_demand'')) = load_demand (state t) * 1.5"
  "battery_health (state (inject_event t ''battery_degradation'')) = battery_health (state t) * 0.8"
  "event_timers (inject_event t ''cloud_cover'') ''cloud_cover'' = Some 10"
  "event_timers (inject_event t ''wind_drop'') ''wind_drop'' = Some 15"
  "active_events (inject_event t ''cloud_cover'') = active_events t @ [''cloud_cover'']"
  "active_events (inject_event t ''wind_drop'') = active_events t @ [''wind_drop'']"
  by (simp_all add: inject_event_def)

lemma expire_events_no_revert:
  "''cloud_cover'' \<notin> set es \<Longrightarrow> ''wind_drop'' \<notin> set es \<Longrightarrow>
   expire_events es t = Inr t' \<Longrightarrow> state t' = state t"
proof (induction es arbitrary: t)
  case Nil
  then show ?case by simp
next
  case (Cons e es)
  then show ?case by (auto simp: Let_def split: if_splits)
qed

lemma run_countdown:
  assumes "5 \<le> length a"
  shows "active_events t = [e] \<Longrightarrow> event_timers t e = Some (int n + m) \<Longrightarrow> 0 < m \<Longrightarrow>
         \<exists>t'. run t (replicate n (Step a z) @ cs) = run t' cs
              \<and> active_events t' = [e] \<and> event_timers t' e = Some m"
proof (induction n arbitrary: t)
  case 0
  then show ?case by auto
next
  case (Suc n)
  have tk: "tick_timers (active_events t) (event_timers t) []
              = ((event_timers t)(e \<mapsto> int n + m), [])"
    using Suc.prems by simp
  from run_ticking[OF assms tk, of z "replicate n (Step a z) @ cs"]
  obtain t1 where r: "run t (Step a z # replicate n (Step a z) @ cs)
                        = run t1 (replicate n (Step a z) @ cs)"
    and e1: "active_events t1 = [e]" and m1: "event_timers t1 e = Some (int n + m)"
    using Suc.prems(1) by auto
  from Suc.IH[OF e1 m1 Suc.prems(3)] r show ?case by auto
qed

lemma run_last_tick:
  assumes "5 \<le> length a" and "active_events t = [e]" and "event_timers t e = Some 1"
  shows "\<exists>t'. run t (Step a z # cs) = run t' cs
              \<and> active_events t' = [] \<and> event_timers t' e = None
              \<and> (e = ''cloud_cover'' \<longrightarrow> cloud_cover (state t') = 0.2)
              \<and> (e = ''wind_drop'' \<longrightarrow> wind_speed (state t') = 10)"
proof -
  let ?x = "(advance t z)\<lparr>event_timers := (event_timers t)(e \<mapsto> 0)\<rparr>"
  let ?y = "?x\<lparr>active_events := [], event_timers := (event_timers ?x)(e := None)\<rparr>"
  let ?t1 = "if e = ''cloud_cover'' then ?y\<lparr>state := (state ?y)\<lparr>cloud_cover := 0.2\<rparr>\<rparr>
             else if e = ''wind_drop'' then ?y\<lparr>state := (state ?y)\<lparr>wind_speed := 10\<rparr>\<rparr>
             else ?y"
  have tk: "tick_timers (active_events t) (event_timers t) []
              = ((event_timers t)(e \<mapsto> 0), [e])"
    using assms(2,3) by simp
  have ex: "expire_events [e] ?x = Inr ?t1"
    using assms(2) by (simp add: advance_keeps Let_def)
  have "run t (Step a z # cs) = run (fst (dispatch ?t1 a)) cs"
    using run_expiring[OF assms(1) tk ex] .
  moreover have "active_events (fst (dispatch ?t1 a)) = []"
    "event_timers (fst (dispatch ?t1 a)) e = None"
    "e = ''cloud_cover'' \<longrightarrow> cloud_cover (state (fst (dispatch ?t1 a))) = 0.2"
    "e = ''wind_drop'' \<longrightarrow> wind_speed (state (fst (dispatch ?t1 a))) = 10"
    by (simp_all add: dispatch_fields)
  ultimately show ?thesis by blast
qed

lemma single_event_reverts_on_time:
  assumes "5 \<le> length a" and "active_events t = []"
  shows "\<exists>t9 t10. run (inject_event t ''cloud_cover'') (replicate 9 (Step a z)) = Inr t9
           \<and> event_timers t9 ''cloud_cover'' = Some 1
           \<and> exec t9 (Step a z) = Inr t10
           \<and> cloud_cover (state t10) = 0.2 \<and> event_timers t10 ''cloud_cover'' = None"
    and "\<exists>t14 t15. run (inject_event t ''wind_drop'') (replicate 14 (Step a z)) = Inr t14
           \<and> event_timers t14 ''wind_drop'' = Some 1
           \<and> exec t14 (Step a z) = Inr t15
           \<and> wind_speed (state t15) = 10 \<and> event_timers t15 ''wind_drop'' = None"
proof -
  have c: "active_events (inject_event t ''cloud_cover'') = [''cloud_cover'']"
    "event_timers (inject_event t ''cloud_cover'') ''cloud_cover'' = Some (int 9 + 1)"
    using assms(2) by (simp_all add: inject_event_effect)
  from run_countdown[OF assms(1) c, of z "[]"]
  obtain t9 where r9: "run (inject_event t ''cloud_cover'') (replicate 9 (Step a z)) = Inr t9"
    and e9: "active_events t9 = [''cloud_cover'']"
    and m9: "event_timers t9 ''cloud_cover'' = Some 1"
    by auto
  from run_last_tick[OF assms(1) e9 m9, of z "[]"]
  obtain t10 where "exec t9 (Step a z) = Inr t10" "cloud_cover (state t10) = 0.2"
    "event_timers t10 ''cloud_cover'' = None"
    by (auto split: sum.splits)
  with r9 m9 show "\<exists>t9 t10. run (inject_event t ''cloud_cover'') (replicate 9 (Step a z)) = Inr t9
           \<and> event_timers t9 ''cloud_cover'' = Some 1
           \<and> exec t9 (Step a z) = Inr t10
           \<and> cloud_cover (state t10) = 0.2 \<and> event_timers t10 ''cloud_cover'' = None"
    by blast
  have w: "active_events (inject_event t ''wind_drop'') = [''wind_drop'']"
    "event_timers (inject_event t ''wind_drop'') ''wind_drop'' = Some (int 14 + 1)"
    using assms(2) by (simp_all add: inject_event_effect)
  from run_countdown[OF assms(1) w, of z "[]"]
  obtain t14 where r14: "run (inject_event t ''wind_drop'') (replicate 14 (Step a z)) = Inr t14"
    and e14: "active_events t14 = [''wind_drop'']"
    and m14: "event_timers t14 ''wind_drop'' = Some 1"
    by auto
  from run_last_tick[OF assms(1) e14 m14, of z "[]"]
  obtain t15 where "exec t14 (Step a z) = Inr t15" "wind_speed (state t15) = 10"
    "event_timers t15 ''wind_drop'' = None"
    by (auto split: sum.splits)
  with r14 m14 show "\<exists>t14 t15. run (inject_event t ''wind_drop'') (replicate 14 (Step a z)) = Inr t14
           \<and> event_timers t14 ''wind_drop'' = Some 1
           \<and> exec t14 (Step a z) = Inr t15
           \<and> wind_speed (state t15) = 10 \<and> event_timers t15 ''wind_drop'' = None"
    by blast
qed


lemma run_countdown_twice:
  assumes "5 \<le> length a"
  shows "active_events t = [e, e] \<Longrightarrow> event_timers t e = Some (2 * int n + m) \<Longrightarrow> 0 < m \<Longrightarrow>
         \<exists>t'. run t (replicate n (Step a z) @ cs) = run t' cs
              \<and> active_events t' = [e, e] \<and> event_timers t' e = Some m"
proof (induction n arbitrary: t)
  case 0
  then show ?case by auto
next
  case (Suc n)
  have tk: "tick_timers (active_events t) (event_timers t) []
              = ((event_timers t)(e \<mapsto> 2 * int n + m), [])"
    using Suc.prems by simp
  from run_ticking[OF assms tk, of z "replicate n (Step a z) @ cs"]
  obtain t1 where r: "run t (Step a z # replicate n (Step a z) @ cs)
                        = run t1 (replicate n (Step a z) @ cs)"
    and e1: "active_events t1 = [e, e]" and m1: "event_timers t1 e = Some (2 * int n + m)"
    using Suc.prems(1) by auto
  from Suc.IH[OF e1 m1 Suc.prems(3)] r show ?case by auto
qed

lemma run_twice_even:
  assumes "5 \<le> length a" and "active_events t = [e, e]" and "event_timers t e = Some 2"
  shows "\<exists>t'. run t (Step a z # cs) = run t' cs
              \<and> active_events t' = [e] \<and> event_timers t' e = None
              \<and> (e = ''cloud_cover'' \<longrightarrow> cloud_cover (state t') = 0.2)"
proof -
  let ?x = "(advance t z)\<lparr>event_timers := (event_timers t)(e \<mapsto> 0)\<rparr>"
  let ?y = "?x\<lparr>active_events := [e], event_timers := (event_timers ?x)(e := None)\<rparr>"
  let ?t1 = "if e = ''cloud_cover'' then ?y\<lparr>state := (state ?y)\<lparr>cloud_cover := 0.2\<rparr>\<rparr>
             else if e = ''wind_drop'' then ?y\<lparr>state := (state ?y)\<lparr>wind_speed := 10\<rparr>\<rparr>
             else ?y"
  have tk: "tick_timers (active_events t) (event_timers t) []
              = ((event_timers t)(e \<mapsto> 0), [e])"
    using assms(2,3) by simp
  have ex: "expire_events [e] ?x = Inr ?t1"
    using assms(2) by (simp add: advance_keeps Let_def)
  have "run t (Step a z # cs) = run (fst (dispatch ?t1 a)) cs"
    using run_expiring[OF assms(1) tk ex] .
  moreover have "active_events (fst (dispatch ?t1 a)) = [e]"
    "event_timers (fst (dispatch ?t1 a)) e = None"
    "e = ''cloud_cover'' \<longrightarrow> cloud_cover (state (fst (dispatch ?t1 a))) = 0.2"
    by (simp_all add: dispatch_fields)
  ultimately show ?thesis by blast
qed

lemma run_twice_odd:
  assumes "5 \<le> length a" and "active_events t = [e, e]" and "event_timers t e = Some 1"
  shows "run t (Step a z # cs) = Inl KeyError"
proof -
  let ?x = "(advance t z)\<lparr>event_timers := (event_timers t)(e \<mapsto> - 1)\<rparr>"
  have tk: "tick_timers (active_events t) (event_timers t) []
              = ((event_timers t)(e \<mapsto> - 1), [e, e])"
    using assms(2,3) by simp
  have ex: "expire_events [e, e] ?x = Inl KeyError"
    using assms(2) by (simp add: advance_keeps Let_def)
  show ?thesis using run_failing[OF assms(1) tk ex] .
qed

text \<open>
  C4. A single injection on a twin without active events behaves as the claim says
  (\<open>single_event_reverts_on_time\<close>, \<open>inject_event_effect\<close>, \<open>expire_events_no_revert\<close>). But
  \<^verbatim>\<open>inject_event\<close> appends to \<^verbatim>\<open>active_events\<close> without looking, and \<^verbatim>\<open>_process_events\<close>
  decrements the timer once per entry of the list. After two injections of
  \<^verbatim>\<open>cloud_cover\<close> the timer of 10 runs out in 5 steps: the fifth step puts the cloud
  cover back to 0.2, deletes the timer and leaves one entry in the list for good. After
  two injections of \<^verbatim>\<open>wind_drop\<close> the timer of 15 reaches 0 and then -1 within the eighth
  step, the event is expired twice, and the second \<^verbatim>\<open>del\<close> raises \<^verbatim>\<open>KeyError\<close>.
\<close>

theorem repeated_injection_halves_countdown:
  "map_sum id (\<lambda>t. (cloud_cover (state t), event_timers t ''cloud_cover'', active_events t))
     (run (construct example_draws)
        (InjectEvent ''cloud_cover'' # InjectEvent ''cloud_cover''
           # replicate 5 (Step hold_action zero_noise)))
     = Inr (0.2, None, [''cloud_cover''])
   \<and> run (construct example_draws)
        (InjectEvent ''wind_drop'' # InjectEvent ''wind_drop''
           # replicate 8 (Step hold_action zero_noise))
     = Inl KeyError"
proof -
  have a: "5 \<le> length hold_action" by (simp add: hold_action_def)
  let ?c = "inject_event (inject_event (construct example_draws) ''cloud_cover'') ''cloud_cover''"
  have c: "active_events ?c = [''cloud_cover'', ''cloud_cover'']"
    "event_timers ?c ''cloud_cover'' = Some (2 * int 4 + 2)"
    by (simp_all add: inject_event_effect construct_fields)
  from run_countdown_twice[OF a c, of zero_noise "[Step hold_action zero_noise]"]
  obtain t4 where r4: "run ?c (replicate 5 (Step hold_action zero_noise))
                         = run t4 [Step hold_action zero_noise]"
    and e4: "active_events t4 = [''cloud_cover'', ''cloud_cover'']"
    and m4: "event_timers t4 ''cloud_cover'' = Some 2"
    by (auto simp: numeral_eq_Suc)
  from run_twice_even[OF a e4 m4, of zero_noise "[]"]
  obtain t5 where r5: "run t4 [Step hold_action zero_noise] = Inr t5"
    and "active_events t5 = [''cloud_cover'']" "event_timers t5 ''cloud_cover'' = None"
    "cloud_cover (state t5) = 0.2"
    by auto
  then have 1: "map_sum id (\<lambda>t. (cloud_cover (state t), event_timers t ''cloud_cover'', active_events t))
     (run (construct example_draws)
        (InjectEvent ''cloud_cover'' # InjectEvent ''cloud_cover''
           # replicate 5 (Step hold_action zero_noise)))
     = Inr (0.2, None, [''cloud_cover''])"
    using r4 by simp
  let ?w = "inject_event (inject_event (construct example_draws) ''wind_drop'') ''wind_drop''"
  have w: "active_events ?w = [''wind_drop'', ''wind_drop'']"
    "event_timers ?w ''wind_drop'' = Some (2 * int 7 + 1)"
    by (simp_all add: inject_event_effect construct_fields)
  from run_countdown_twice[OF a w, of zero_noise "[Step hold_action zero_noise]"]
  obtain t7 where r7: "run ?w (replicate 8 (Step hold_action zero_noise))
                         = run t7 [Step hold_action zero_noise]"
    and e7: "active_events t7 = [''wind_drop'', ''wind_drop'']"
    and m7: "event_timers t7 ''wind_drop'' = Some 1"
    by (auto simp: numeral_eq_Suc)
  have 2: "run (construct example_draws)
        (InjectEvent ''wind_drop'' # InjectEvent ''wind_drop''
           # replicate 8 (Step hold_action zero_noise))
     = Inl KeyError"
    using run_twice_odd[OF a e7 m7, of zero_noise "[]"] r7 by simp
  from 1 2 show ?thesis by blast
qed

section \<open>The training guard\<close>

text \<open>
  C8. With fewer transitions in the buffer than \<^verbatim>\<open>batch_size\<close>, \<^verbatim>\<open>train_step\<close> returns the
  metrics with three zeros; the agent (networks, optimizers, buffer) and the random
  generators are as before, whatever the update would have done.
\<close>

theorem train_step_underfilled:
  "int (length (buffer agent)) < batch_size \<Longrightarrow>
   train_step ppo_update agent batch_size g
     = (agent, \<lparr> policy_loss = 0, value_loss = 0, entropy = 0 \<rparr>, g)"
  by (simp add: train_step_def)

theorem train_step_underfilled_witness:
  "int (length (buffer \<lparr> policy = (), value_net = (), policy_optimizer = (),
                         value_optimizer = (), buffer = [] \<rparr>)) < 64
   \<and> train_step (\<lambda>a b g. (store_transition a ([], [], 0, [], True),
                          \<lparr> policy_loss = 1, value_loss = 1, entropy = 1 \<rparr>, Suc g))
        \<lparr> policy = (), value_net = (), policy_optimizer = (), value_optimizer = (),
          buffer = [] \<rparr> 64 (0::nat)
      = (\<lparr> policy = (), value_net = (), policy_optimizer = (), value_optimizer = (),
           buffer = [] \<rparr>,
         \<lparr> policy_loss = 0, value_loss = 0, entropy = 0 \<rparr>, 0)"
  using train_step_underfilled
    [of "\<lparr> policy = (), value_net = (), policy_optimizer = (), value_optimizer = (),
          buffer = [] \<rparr>" 64
        "\<lambda>a b g. (store_transition a ([], [], 0, [], True),
                  \<lparr> policy_loss = 1, value_loss = 1, entropy = 1 \<rparr>, Suc g)" "0::nat"]
  by simp

section \<open>Reproducibility\<close>

lemma construct_rng_seeded:
  "construct_rng ops (Some seed) g
     = (construct (fst (draw_init ops (seeded ops seed))), snd (draw_init ops (seeded ops seed)))"
  by (simp add: construct_rng_def split: prod.splits)

lemma step_rng_step:
  "step_rng ops t action g = (step t action (fst (draw_noise ops g)),
                              if length action < 5 then g else snd (draw_noise ops g))"
  by (simp add: step_rng_def step_def split: prod.splits)

lemma side_by_side_steps:
  "side_by_side ops seed action g
     = (map_sum id (\<lambda>r. state (fst r))
          (step (construct (fst (draw_init ops (seeded ops seed)))) action
             (fst (draw_noise ops (snd (draw_init ops (seeded ops seed)))))),
        map_sum id (\<lambda>r. state (fst r))
          (step (construct (fst (draw_init ops (seeded ops seed)))) action
             (fst (draw_noise ops
                (if length action < 5 then snd (draw_init ops (seeded ops seed))
                 else snd (draw_noise ops (snd (draw_init ops (seeded ops seed)))))))))"
  by (simp add: side_by_side_def construct_rng_seeded step_rng_step)

lemma solo_run_first_step:
  "hd (snd (solo_run ops seed (action # rest) g))
     = map_sum id (\<lambda>r. (state (fst r), snd r))
         (step (construct (fst (draw_init ops (seeded ops seed)))) action
            (fst (draw_noise ops (snd (draw_init ops (seeded ops seed))))))"
  by (simp add: solo_run_def construct_rng_seeded step_rng_step split: prod.splits sum.splits)

lemma step_cloud_cover:
  assumes "active_events t = []" "5 \<le> length action"
  shows "map_sum id (\<lambda>r. cloud_cover (state (fst r))) (step t action z)
         = Inr (clip (cloud_cover (state t) + cloud_noise z - 0.01) 0 1)"
  unfolding step_no_events[OF assms]
  by (simp add: dispatch_fields state_advance update_load_demand_fields
      update_wind_generation_fields update_solar_generation_fields update_weather_fields)

lemma map_sum_cloud_cover:
  "map_sum id cloud_cover (map_sum id (\<lambda>r. state (fst r)) x)
     = map_sum id (\<lambda>r. cloud_cover (state (fst r))) x"
  by (cases x) simp_all

text \<open>
  C9, as the code has it. Construction with a seed replaces the state of both generators.
  So an instance that is constructed and then stepped with nothing else drawing from the
  generators has its initial state and its whole trajectory (states, observations,
  rewards, \<^verbatim>\<open>done\<close> flags, or the exception that ends it) fixed by the seed and the
  actions, whatever the generators held before; and of two instances run one after the
  other, each constructed with the seed and stepped through the actions before the next
  is constructed, both have the initial state and the trajectory of the instance run
  alone. That instance starts in the state built from the seeded draws of construction and
  makes its first step with the four draws that follow them. Of two instances that are both constructed with the seed before either is
  stepped, both start in the same state, the first makes its step with the four draws that
  follow the seeded draws of construction, and the second makes its step with the four
  draws after those. When the action has its five components and the two cloud draws take
  the initial cloud cover to different clipped values, the two instances are in different
  states after their first step.
\<close>

theorem seeded_twins:
  fixes ops :: "'g rand_ops" and seed :: int
  defines "d \<equiv> fst (draw_init ops (seeded ops seed))"
  defines "g1 \<equiv> snd (draw_init ops (seeded ops seed))"
  defines "z1 \<equiv> fst (draw_noise ops g1)"
  defines "z2 \<equiv> fst (draw_noise ops (snd (draw_noise ops g1)))"
  shows "solo_run ops seed actions g = solo_run ops seed actions g'
       \<and> fst (one_after_the_other ops seed actions g) = solo_run ops seed actions g
       \<and> snd (one_after_the_other ops seed actions g) = solo_run ops seed actions g
       \<and> fst (solo_run ops seed actions g) = state (construct d)
       \<and> hd (snd (solo_run ops seed (action # actions) g))
           = map_sum id (\<lambda>r. (state (fst r), snd r)) (step (construct d) action z1)
       \<and> (5 \<le> length action \<longrightarrow>
            side_by_side ops seed action g
              = (map_sum id (\<lambda>r. state (fst r)) (step (construct d) action z1),
                 map_sum id (\<lambda>r. state (fst r)) (step (construct d) action z2)))
       \<and> (5 \<le> length action
            \<and> clip (draw_cloud d + cloud_noise z1 - 0.01) 0 1
                \<noteq> clip (draw_cloud d + cloud_noise z2 - 0.01) 0 1
          \<longrightarrow> fst (side_by_side ops seed action g) \<noteq> snd (side_by_side ops seed action g))"
proof -
  have a: "solo_run ops seed actions g = solo_run ops seed actions g'"
    by (simp add: solo_run_def construct_rng_seeded)
  have b: "fst (one_after_the_other ops seed actions g) = solo_run ops seed actions g"
    and c: "snd (one_after_the_other ops seed actions g) = solo_run ops seed actions g"
    by (simp_all add: one_after_the_other_def solo_run_def construct_rng_seeded
        split: prod.splits)
  have i: "fst (solo_run ops seed actions g) = state (construct d)"
    by (simp add: solo_run_def construct_rng_seeded d_def)
  have h: "hd (snd (solo_run ops seed (action # actions) g))
           = map_sum id (\<lambda>r. (state (fst r), snd r)) (step (construct d) action z1)"
    unfolding d_def g1_def z1_def by (rule solo_run_first_step)
  have s: "side_by_side ops seed action g
              = (map_sum id (\<lambda>r. state (fst r)) (step (construct d) action z1),
                 map_sum id (\<lambda>r. state (fst r)) (step (construct d) action z2))"
    if "5 \<le> length action"
    using that by (simp add: side_by_side_steps d_def g1_def z1_def z2_def)
  have n: "fst (side_by_side ops seed action g) \<noteq> snd (side_by_side ops seed action g)"
    if len: "5 \<le> length action"
      and ne: "clip (draw_cloud d + cloud_noise z1 - 0.01) 0 1
                \<noteq> clip (draw_cloud d + cloud_noise z2 - 0.01) 0 1"
  proof
    assume "fst (side_by_side ops seed action g) = snd (side_by_side ops seed action g)"
    then have "map_sum id (\<lambda>r. state (fst r)) (step (construct d) action z1)
             = map_sum id (\<lambda>r. state (fst r)) (step (construct d) action z2)"
      by (simp add: s[OF len])
    then have "map_sum id cloud_cover
                 (map_sum id (\<lambda>r. state (fst r)) (step (construct d) action z1))
             = map_sum id cloud_cover
                 (map_sum id (\<lambda>r. state (fst r)) (step (construct d) action z2))"
      by simp
    then have "clip (cloud_cover (state (construct d)) + cloud_noise z1 - 0.01) 0 1
             = clip (cloud_cover (state (construct d)) + cloud_noise z2 - 0.01) 0 1"
      unfolding map_sum_cloud_cover
      by (simp add: step_cloud_cover[OF _ len] construct_fields)
    with ne show False by (simp add: construct_fields)
  qed
  from a b c i h s n show ?thesis by blast
qed

theorem seeded_twins_witness:
  "5 \<le> length hold_action
   \<and> clip (draw_cloud (fst (draw_init counter_ops (seeded counter_ops 7)))
           + cloud_noise (fst (draw_noise counter_ops
                                 (snd (draw_init counter_ops (seeded counter_ops 7))))) - 0.01) 0 1
       = 0.215
   \<and> clip (draw_cloud (fst (draw_init counter_ops (seeded counter_ops 7)))
           + cloud_noise (fst (draw_noise counter_ops
                (snd (draw_noise counter_ops
                        (snd (draw_init counter_ops (seeded counter_ops 7))))))) - 0.01) 0 1
       = 0.265
   \<and> fst (side_by_side counter_ops 7 hold_action 0)
       \<noteq> snd (side_by_side counter_ops 7 hold_action 0)
   \<and> fst (one_after_the_other counter_ops 7 [hold_action, hold_action] 0)
       = snd (one_after_the_other counter_ops 7 [hold_action, hold_action] 0)"
proof -
  have d: "draw_init counter_ops 7
             = (\<lparr> draw_day = 1, draw_cloud = 0.225, draw_wind = 7.5, draw_temp = 27.5,
                  draw_load_noise = 0.1, draw_soc = 0.45 \<rparr>, 13)"
    by (simp add: draw_init_def counter_ops_def cycle3_def)
  have n1: "draw_noise counter_ops 13
              = (\<lparr> cloud_noise = 0, wind_noise = 1, temp_noise = - 1, load_noise = 0 \<rparr>, 17)"
    by (simp add: draw_noise_def counter_ops_def cycle3_def)
  have n2: "draw_noise counter_ops 17
              = (\<lparr> cloud_noise = 0.05, wind_noise = - 1, temp_noise = 0, load_noise = 0.1 \<rparr>, 21)"
    by (simp add: draw_noise_def counter_ops_def cycle3_def)
  have sd: "seeded counter_ops 7 = 13 - 6" by (simp add: counter_ops_def)
  have len: "5 \<le> length hold_action" by (simp add: hold_action_def)
  have c1: "clip (draw_cloud (fst (draw_init counter_ops (seeded counter_ops 7)))
           + cloud_noise (fst (draw_noise counter_ops
                                 (snd (draw_init counter_ops (seeded counter_ops 7))))) - 0.01) 0 1
       = 0.215"
    unfolding sd by (simp add: d n1 clip_def)
  have c2: "clip (draw_cloud (fst (draw_init counter_ops (seeded counter_ops 7)))
           + cloud_noise (fst (draw_noise counter_ops
                (snd (draw_noise counter_ops
                        (snd (draw_init counter_ops (seeded counter_ops 7))))))) - 0.01) 0 1
       = 0.265"
    unfolding sd by (simp add: d n1 n2 clip_def)
  have ne: "clip (draw_cloud (fst (draw_init counter_ops (seeded counter_ops 7)))
           + cloud_noise (fst (draw_noise counter_ops
                                 (snd (draw_init counter_ops (seeded counter_ops 7))))) - 0.01) 0 1
       \<noteq> clip (draw_cloud (fst (draw_init counter_ops (seeded counter_ops 7)))
           + cloud_noise (fst (draw_noise counter_ops
                (snd (draw_noise counter_ops
                        (snd (draw_init counter_ops (seeded counter_ops 7))))))) - 0.01) 0 1"
    unfolding c1 c2 by simp
  from seeded_twins[where ops = counter_ops and seed = 7 and action = hold_action
      and actions = "[hold_action, hold_action]" and g = 0 and g' = 0] len ne
  have "fst (side_by_side counter_ops 7 hold_action 0)
          \<noteq> snd (side_by_side counter_ops 7 hold_action 0)
      \<and> fst (one_after_the_other counter_ops 7 [hold_action, hold_action] 0)
          = snd (one_after_the_other counter_ops 7 [hold_action, hold_action] 0)"
    by metis
  with len c1 c2 show ?thesis by blast
qed

text \<open>
  The claim as stated, for any two instances with the same seed, fails on a generator
  whose successive draws differ: two twins constructed with seed 42 and then stepped in
  turn with the same action draw one after the other from the same generators, and have
  cloud covers 0.09 and 0.14 after their first step.
\<close>

theorem side_by_side_counterexample:
  "fst (side_by_side counter_ops 42 hold_action 0)
     \<noteq> snd (side_by_side counter_ops 42 hold_action 0)"
proof -
  have d: "draw_init counter_ops 42
             = (\<lparr> draw_day = 1, draw_cloud = 0.15, draw_wind = 12.5, draw_temp = 23.75,
                  draw_load_noise = 0, draw_soc = 0.55 \<rparr>, 48)"
    by (simp add: draw_init_def counter_ops_def cycle3_def)
  define T where "T = construct \<lparr> draw_day = 1, draw_cloud = 0.15, draw_wind = 12.5,
                  draw_temp = 23.75, draw_load_noise = 0, draw_soc = 0.55 \<rparr>"
  have c: "construct_rng counter_ops (Some 42) g = (T, 48)" for g
    by (simp add: construct_rng_def counter_ops_def d[unfolded counter_ops_def] T_def)
  define z1 where "z1 = \<lparr> cloud_noise = - 0.05, wind_noise = 0, temp_noise = 1, load_noise = - 0.1 \<rparr>"
  define z2 where "z2 = \<lparr> cloud_noise = 0, wind_noise = 1, temp_noise = - 1, load_noise = 0 \<rparr>"
  have n1: "draw_noise counter_ops 48 = (z1, 52)"
    by (simp add: draw_noise_def counter_ops_def cycle3_def z1_def)
  have n2: "draw_noise counter_ops 52 = (z2, 56)"
    by (simp add: draw_noise_def counter_ops_def cycle3_def z2_def)
  have a: "5 \<le> length hold_action" by (simp add: hold_action_def)
  have e: "active_events T = []" "cloud_cover (state T) = 0.15"
    by (simp_all add: T_def construct_fields)
  have s: "step T hold_action z = Inr (dispatch (advance T z) hold_action)" for z
    using e(1) a by (rule step_no_events)
  have sbs: "side_by_side counter_ops 42 hold_action 0
               = (Inr (state (fst (dispatch (advance T z1) hold_action))),
                  Inr (state (fst (dispatch (advance T z2) hold_action))))"
    using a by (simp add: side_by_side_def c step_rng_def n1 n2 s)
  have c1: "cloud_cover (state (fst (dispatch (advance T z1) hold_action))) = 0.09"
    by (simp add: dispatch_fields state_advance update_load_demand_fields
        update_wind_generation_fields update_solar_generation_fields update_weather_fields
        e z1_def clip_def)
  have c2: "cloud_cover (state (fst (dispatch (advance T z2) hold_action))) = 0.14"
    by (simp add: dispatch_fields state_advance update_load_demand_fields
        update_wind_generation_fields update_solar_generation_fields update_weather_fields
        e z2_def clip_def)
  have "state (fst (dispatch (advance T z1) hold_action))
          \<noteq> state (fst (dispatch (advance T z2) hold_action))"
  proof
    assume "state (fst (dispatch (advance T z1) hold_action))
              = state (fst (dispatch (advance T z2) hold_action))"
    then have "cloud_cover (state (fst (dispatch (advance T z1) hold_action)))
                 = cloud_cover (state (fst (dispatch (advance T z2) hold_action)))"
      by simp
    with c1 c2 show False by simp
  qed
  then show ?thesis by (simp add: sbs)
qed

end
